theory Spec2Isabelle
  imports Main "HOL-Library.Word"
begin

unbundle bit_operations_syntax

section \<open>Status codes shared by the vector engines\<close>

text \<open>
  The status codes of \<^verbatim>\<open>bh_error\<close> that the modelled files use. A helper that calls
  through a null function pointer does not return at all; \<open>Crashes\<close> stands for that.
\<close>

datatype bh_error =
    BH_SUCCESS
  | BH_ERROR
  | BH_TYPE_NOT_SUPPORTED
  | BH_OUT_OF_MEMORY
  | BH_USERFUNC_NOT_SUPPORTED

datatype outcome = Returns bh_error | Crashes

type_synonym bh_intp = "64 word"

section \<open>The naive vector engine (src/ve/naive/bh\_ve\_naive.cpp)\<close>

subsection \<open>File-scope state\<close>

text \<open>
  A \<^verbatim>\<open>bh_userfunc_impl\<close> is a function pointer: to one of the three functions that
  the file defines at its end, or to a function of another library, of which the model
  keeps the identity only. \<open>None\<close> is the null pointer. The record holds the six
  statics of the file.
\<close>

datatype bh_userfunc_impl = Bh_random | Bh_matmul | Bh_nselect | Foreign nat

record naive_state =
  random_impl :: "bh_userfunc_impl option"
  random_impl_id :: bh_intp
  matmul_impl :: "bh_userfunc_impl option"
  matmul_impl_id :: bh_intp
  nselect_impl :: "bh_userfunc_impl option"
  nselect_impl_id :: bh_intp

definition naive_initial :: naive_state where
  "naive_initial =
     \<lparr>random_impl = None, random_impl_id = 0,
      matmul_impl = None, matmul_impl_id = 0,
      nselect_impl = None, nselect_impl_id = 0\<rparr>"

subsection \<open>bh\_ve\_naive\_reg\_func\<close>

text \<open>
  \<^verbatim>\<open>bh_component_get_func(myself, fun, &impl)\<close> belongs to the component library: it
  stores the looked-up function pointer, or null, in \<open>impl\<close>. It is the parameter
  \<open>get_func\<close>. The result is the returned status, the value of \<^verbatim>\<open>*id\<close> after the
  call, and the statics after the call.
\<close>

definition bh_ve_naive_reg_func ::
  "(string \<Rightarrow> bh_userfunc_impl option) \<Rightarrow> string \<Rightarrow> bh_intp \<Rightarrow> naive_state
     \<Rightarrow> bh_error \<times> bh_intp \<times> naive_state" where
  "bh_ve_naive_reg_func get_func fn ident s =
     (if fn = ''bh_random'' then
        (if random_impl s = None then
           (let s1 = s\<lparr>random_impl := get_func fn\<rparr> in
            if random_impl s1 = None then (BH_USERFUNC_NOT_SUPPORTED, ident, s1)
            else (BH_SUCCESS, ident, s1\<lparr>random_impl_id := ident\<rparr>))
         else (BH_SUCCESS, random_impl_id s, s))
      else if fn = ''bh_matmul'' then
        (if matmul_impl s = None then
           (let s1 = s\<lparr>matmul_impl := get_func fn\<rparr> in
            if matmul_impl s1 = None then (BH_USERFUNC_NOT_SUPPORTED, ident, s1)
            else (BH_SUCCESS, ident, s1\<lparr>matmul_impl_id := ident\<rparr>))
         else (BH_SUCCESS, matmul_impl_id s, s))
      else if fn = ''bh_nselect'' then
        (if nselect_impl s = None then
           (let s1 = s\<lparr>nselect_impl := get_func fn\<rparr> in
            if nselect_impl s1 = None then (BH_USERFUNC_NOT_SUPPORTED, ident, s1)
            else (BH_SUCCESS, ident, s1\<lparr>nselect_impl_id := ident\<rparr>))
         else (BH_SUCCESS, nselect_impl_id s, s))
      else (BH_USERFUNC_NOT_SUPPORTED, ident, s))"

text \<open>The implementation and the id that the statics hold for a function name.\<close>

definition impl_of :: "string \<Rightarrow> naive_state \<Rightarrow> bh_userfunc_impl option" where
  "impl_of fn s =
     (if fn = ''bh_random'' then random_impl s
      else if fn = ''bh_matmul'' then matmul_impl s
      else if fn = ''bh_nselect'' then nselect_impl s
      else None)"

definition id_of :: "string \<Rightarrow> naive_state \<Rightarrow> bh_intp" where
  "id_of fn s =
     (if fn = ''bh_random'' then random_impl_id s
      else if fn = ''bh_matmul'' then matmul_impl_id s
      else nselect_impl_id s)"

definition supported_names :: "string list" where
  "supported_names = [''bh_random'', ''bh_matmul'', ''bh_nselect'']"

text \<open>
  A sequence of registration calls, each with the component library as it answers at
  that moment, the name and the caller's \<^verbatim>\<open>*id\<close>; the statics after the last call.
\<close>

fun reg_funcs ::
  "((string \<Rightarrow> bh_userfunc_impl option) \<times> string \<times> bh_intp) list \<Rightarrow> naive_state
     \<Rightarrow> naive_state" where
  "reg_funcs [] s = s"
| "reg_funcs ((g, fn, ident) # calls) s =
     reg_funcs calls (snd (snd (bh_ve_naive_reg_func g fn ident s)))"

section \<open>The CPU engine (src/ve/cpu/engine.cpp)\<close>

subsection \<open>Three-address code, operands and the symbol table\<close>

text \<open>
  The header that declares \<^verbatim>\<open>tac_t\<close>, \<^verbatim>\<open>operand_t\<close> and the enumerations is not
  among the sources; the types below have the fields and the enumerators that
  engine.cpp uses. An \<open>OPERATOR\<close> other than the system ones is \<open>ARITH n\<close>. The field
  \<open>ext_opcode\<close> is the opcode of the instruction that \<^verbatim>\<open>tac.ext\<close> points to. Operand
  fields are handles into the symbol table; a base array is named by its address.
\<close>

datatype OPERATION = MAP | ZIP | REDUCE | SCAN | GENERATE | SYSTEM | EXTENSION | NOOP

datatype OPERATOR = DISCARD | FREE | SYNC | NONE | ARITH nat

datatype LAYOUT = SCALAR | CONSTANT | CONTIGUOUS | STRIDED | SPARSE

text \<open>
  Modelled from the spec: the order of the layout tags, which the missing header fixes,
  \<open>SCALAR < CONSTANT < CONTIGUOUS < STRIDED < SPARSE\<close>.
\<close>

fun layout_rank :: "LAYOUT \<Rightarrow> nat" where
  "layout_rank SCALAR = 0"
| "layout_rank CONSTANT = 1"
| "layout_rank CONTIGUOUS = 2"
| "layout_rank STRIDED = 3"
| "layout_rank SPARSE = 4"

record tac_t =
  op :: OPERATION
  oper :: OPERATOR
  out :: nat
  in1 :: nat
  in2 :: nat
  ext_opcode :: nat

record operand_t =
  layout :: LAYOUT
  base :: nat

record symbol_table =
  operands :: "nat \<Rightarrow> operand_t"
  temp :: "nat set"

record bh_base =
  data_set :: bool
  nelem :: nat

text \<open>
  The masks are sets of operations: \<^verbatim>\<open>(m & ARRAY_OPS) > 0\<close> is \<open>mask_and m ARRAY_OPS\<close>.
  \<open>ARRAY_OPS\<close> is read off the case labels that \<^verbatim>\<open>sij_mode\<close> groups under the comment
  "Array operations"; \<^verbatim>\<open>NON_FUSABLE\<close> is a field of the configuration.
\<close>

definition ARRAY_OPS :: "OPERATION set" where
  "ARRAY_OPS = {MAP, ZIP, GENERATE, REDUCE, SCAN}"

definition mask_and :: "OPERATION set \<Rightarrow> OPERATION set \<Rightarrow> bool" where
  "mask_and m k = (m \<inter> k \<noteq> {})"

record engine_cfg =
  jit_enabled :: bool
  jit_fusion :: bool
  jit_dumpsrc :: bool
  NON_FUSABLE :: "OPERATION set"

subsection \<open>Collaborators and engine state\<close>

text \<open>
  What engine.cpp calls and the sources do not contain is a field of \<open>world\<close>:
  \<^verbatim>\<open>core::tac_noperands\<close>, \<^verbatim>\<open>core::compatible\<close>, \<^verbatim>\<open>Block::symbolize\<close> (its
  boolean result and the symbol the block holds afterwards), and the answers of the
  outside world to a compiler run, to loading an object, to the victim cache and to an
  extension method. The latter are indexed by \<open>ticks\<close>, the number of external calls
  made so far, so that the same request can be answered differently at a later time.
\<close>

record world =
  tac_noperands :: "tac_t \<Rightarrow> nat"
  compatible :: "operand_t \<Rightarrow> operand_t \<Rightarrow> bool"
  symbolize :: "tac_t list \<Rightarrow> bool \<times> string"
  compile :: "nat \<Rightarrow> string \<Rightarrow> bool"
  load :: "nat \<Rightarrow> string \<Rightarrow> bool"
  vcache_malloc :: "nat \<Rightarrow> nat \<Rightarrow> bh_error"
  vcache_free :: "nat \<Rightarrow> nat \<Rightarrow> bh_error"
  extmethod :: "nat \<Rightarrow> nat \<Rightarrow> nat \<Rightarrow> bh_error"

record triplet_t =
  t_begin :: nat
  t_end :: nat
  t_layout :: LAYOUT

text \<open>
  The engine's members and what it does to the outside, in call order: \<open>ready\<close> are the
  symbols whose function pointer Storage holds, \<open>symbols\<close> the \<^verbatim>\<open>add_symbol\<close> calls,
  \<open>compiled\<close> the symbols whose object path went to \<^verbatim>\<open>compiler.compile\<close>,
  \<open>specialized\<close> the specializer calls with their ranges, \<open>dumped\<close> the source dumps,
  \<open>launched\<close> the kernels called, \<open>malloced\<close> and \<open>freed\<close> the bases handed to the
  victim cache, \<open>ext_called\<close> the extension methods run.
\<close>

record engine_state =
  extensions :: "nat \<rightharpoonup> nat"
  ready :: "string set"
  symbols :: "string list"
  compiled :: "string list"
  specialized :: "(string \<times> triplet_t list) list"
  dumped :: "string list"
  launched :: "string list"
  malloced :: "nat list"
  freed :: "nat list"
  ext_called :: "nat list"
  bases :: "nat \<Rightarrow> bh_base"
  exec_count :: nat
  ticks :: nat

text \<open>
  Modelled from the spec: Storage, which is not among the sources. \<^verbatim>\<open>symbol_ready(fp)\<close>
  holds when the function pointer is resolved in memory; \<^verbatim>\<open>load(fp)\<close> opens the shared
  object, resolves the launcher and caches it, or returns false.
\<close>

definition symbol_ready :: "engine_state \<Rightarrow> string \<Rightarrow> bool" where
  "symbol_ready s symb = (symb \<in> ready s)"

definition storage_load :: "world \<Rightarrow> string \<Rightarrow> engine_state \<Rightarrow> bool \<times> engine_state" where
  "storage_load w symb s =
     (if load w (ticks s) symb
      then (True, s\<lparr>ready := insert symb (ready s), ticks := Suc (ticks s)\<rparr>)
      else (False, s\<lparr>ticks := Suc (ticks s)\<rparr>))"

text \<open>
  Modelled from the spec: the victim cache, which is not among the sources.
  \<^verbatim>\<open>malloc(base)\<close> is a no-op on a base that has a buffer and otherwise gives it one or
  fails; \<^verbatim>\<open>free(base)\<close> detaches the buffer.
\<close>

definition bh_vcache_malloc_base :: "world \<Rightarrow> nat \<Rightarrow> engine_state \<Rightarrow> bh_error \<times> engine_state" where
  "bh_vcache_malloc_base w b s =
     (let s1 = s\<lparr>malloced := malloced s @ [b], ticks := Suc (ticks s)\<rparr> in
      if data_set (bases s b) then (BH_SUCCESS, s1)
      else if vcache_malloc w (ticks s) b = BH_SUCCESS
      then (BH_SUCCESS, s1\<lparr>bases := (bases s)(b := (bases s b)\<lparr>data_set := True\<rparr>)\<rparr>)
      else (vcache_malloc w (ticks s) b, s1))"

definition bh_vcache_free_base :: "world \<Rightarrow> nat \<Rightarrow> engine_state \<Rightarrow> bh_error \<times> engine_state" where
  "bh_vcache_free_base w b s =
     (let s1 = s\<lparr>freed := freed s @ [b], ticks := Suc (ticks s)\<rparr> in
      if vcache_free w (ticks s) b = BH_SUCCESS
      then (BH_SUCCESS, s1\<lparr>bases := (bases s)(b := (bases s b)\<lparr>data_set := False\<rparr>)\<rparr>)
      else (vcache_free w (ticks s) b, s1))"

subsection \<open>The steps that sij\_mode and fuse\_mode share\<close>

text \<open>
  The body of the JIT branch (lines 141 to 162, and again 386 to 410): specialize, dump
  the source when asked, run the compiler on the symbol's object path, and on success
  inform Storage. The result is \<^verbatim>\<open>compile_res\<close>.
\<close>

definition compile_block ::
  "engine_cfg \<Rightarrow> world \<Rightarrow> string \<Rightarrow> triplet_t list \<Rightarrow> engine_state \<Rightarrow> bool \<times> engine_state" where
  "compile_block cfg w symb ranges s =
     (let s1 = s\<lparr>specialized := specialized s @ [(symb, ranges)]\<rparr>;
          s2 = (if jit_dumpsrc cfg then s1\<lparr>dumped := dumped s1 @ [symb]\<rparr> else s1);
          compile_res = compile w (ticks s2) symb;
          s3 = s2\<lparr>compiled := compiled s2 @ [symb], ticks := Suc (ticks s2)\<rparr>
      in if \<not> compile_res then (False, s3)
         else (True, s3\<lparr>symbols := symbols s3 @ [symb]\<rparr>))"

text \<open>
  \<^verbatim>\<open>storage.funcs[symbol](operands)\<close>: a call through the cached launcher, or through a
  null pointer when the symbol is not ready.
\<close>

definition launch :: "string \<Rightarrow> engine_state \<Rightarrow> outcome \<times> engine_state" where
  "launch symb s =
     (if symbol_ready s symb then (Returns BH_SUCCESS, s\<lparr>launched := launched s @ [symb]\<rparr>)
      else (Crashes, s))"

subsection \<open>Engine::sij\_mode\<close>

definition sij_array_op ::
  "engine_cfg \<Rightarrow> world \<Rightarrow> symbol_table \<Rightarrow> tac_t list \<Rightarrow> tac_t \<Rightarrow> engine_state
     \<Rightarrow> outcome \<times> engine_state" where
  "sij_array_op cfg w st block tac s =
     (let symb = snd (symbolize w block);
          (compile_res, s1) =
            (if jit_enabled cfg \<and> \<not> symbol_ready s symb
             then compile_block cfg w symb [] s else (True, s))
      in if \<not> compile_res then (Returns BH_ERROR, s1)
         else
           (let (loaded, s2) =
                  (if \<not> symbol_ready s1 symb then storage_load w symb s1 else (True, s1))
            in if \<not> loaded then (Returns BH_ERROR, s2)
               else
                 (let (res, s3) = bh_vcache_malloc_base w (base (operands st (out tac))) s2
                  in if res \<noteq> BH_SUCCESS then (Returns res, s3)
                     else launch symb s3)))"

definition sij_mode ::
  "engine_cfg \<Rightarrow> world \<Rightarrow> symbol_table \<Rightarrow> tac_t list \<Rightarrow> engine_state
     \<Rightarrow> outcome \<times> engine_state" where
  "sij_mode cfg w st block s =
     (case block of
        [] \<Rightarrow> (Crashes, s)
      | tac # _ \<Rightarrow>
         (case op tac of
            NOOP \<Rightarrow> (Returns BH_SUCCESS, s)
          | SYSTEM \<Rightarrow>
             (case oper tac of
                DISCARD \<Rightarrow> (Returns BH_SUCCESS, s)
              | SYNC \<Rightarrow> (Returns BH_SUCCESS, s)
              | FREE \<Rightarrow>
                 (let (res, s1) = bh_vcache_free_base w (base (operands st (out tac))) s
                  in if res \<noteq> BH_SUCCESS then (Returns res, s1)
                     else (Returns BH_SUCCESS, s1))
              | NONE \<Rightarrow> (Returns BH_ERROR, s)
              | ARITH n \<Rightarrow> (Returns BH_ERROR, s))
          | EXTENSION \<Rightarrow>
             (case extensions s (ext_opcode tac) of
                Some m \<Rightarrow>
                 (let res = extmethod w (ticks s) m (ext_opcode tac);
                      s1 = s\<lparr>ext_called := ext_called s @ [m], ticks := Suc (ticks s)\<rparr>
                  in if res \<noteq> BH_SUCCESS then (Returns res, s1)
                     else (Returns BH_SUCCESS, s1))
              | None \<Rightarrow> (Returns BH_SUCCESS, s))
          | MAP \<Rightarrow> sij_array_op cfg w st block tac s
          | ZIP \<Rightarrow> sij_array_op cfg w st block tac s
          | GENERATE \<Rightarrow> sij_array_op cfg w st block tac s
          | REDUCE \<Rightarrow> sij_array_op cfg w st block tac s
          | SCAN \<Rightarrow> sij_array_op cfg w st block tac s))"

subsection \<open>Engine::fuse\_mode: the fuse ranges\<close>

text \<open>
  \<^verbatim>\<open>if (next_layout > fusion_layout) fusion_layout = next_layout\<close>.
\<close>

definition note_layout :: "LAYOUT \<Rightarrow> LAYOUT \<Rightarrow> LAYOUT" where
  "note_layout next_layout fusion_layout =
     (if layout_rank next_layout > layout_rank fusion_layout then next_layout
      else fusion_layout)"

text \<open>
  The switch on \<^verbatim>\<open>tac_noperands(next)\<close> with its fall-through from case 3 into case 2:
  the result is \<^verbatim>\<open>compat_operands\<close> and the new \<^verbatim>\<open>fusion_layout\<close>.
\<close>

definition check_operands ::
  "world \<Rightarrow> symbol_table \<Rightarrow> tac_t \<Rightarrow> tac_t \<Rightarrow> LAYOUT \<Rightarrow> bool \<times> LAYOUT" where
  "check_operands w st first next fusion_layout =
     (let n = tac_noperands w next;
          (c3, l3) =
            (if n = 3
             then (compatible w (operands st (out first)) (operands st (in2 next)),
                   note_layout (layout (operands st (in2 next))) fusion_layout)
             else (True, fusion_layout))
      in if n = 3 \<or> n = 2
         then (c3 \<and> compatible w (operands st (out first)) (operands st (in1 next))
                  \<and> compatible w (operands st (out first)) (operands st (out next)),
               note_layout (layout (operands st (out next)))
                 (note_layout (layout (operands st (in1 next))) l3))
         else (True, fusion_layout))"

text \<open>
  The sweep over \<^verbatim>\<open>tac_idx\<close>. The loop variables are \<^verbatim>\<open>range_begin\<close>,
  \<^verbatim>\<open>fusion_layout\<close>, the index of the TAC that \<^verbatim>\<open>first\<close> points to, and \<^verbatim>\<open>ranges\<close>.
  The first test is the source's \<^verbatim>\<open>(next.op == SYSTEM) && (next.op == NOOP)\<close>.
\<close>

fun fuse_sweep ::
  "world \<Rightarrow> symbol_table \<Rightarrow> tac_t list \<Rightarrow> nat list
     \<Rightarrow> nat \<times> LAYOUT \<times> nat \<times> triplet_t list \<Rightarrow> nat \<times> LAYOUT \<times> nat \<times> triplet_t list" where
  "fuse_sweep w st block [] acc = acc"
| "fuse_sweep w st block (tac_idx # rest) (range_begin, fusion_layout, first, ranges) =
     (let range_end = tac_idx;
          next = block ! tac_idx
      in if op next = SYSTEM \<and> op next = NOOP
         then fuse_sweep w st block rest (range_begin, fusion_layout, first, ranges)
         else if \<not> (op next = MAP \<or> op next = ZIP)
         then
           (let ranges1 =
                  (if range_begin < range_end
                   then ranges @
                     [\<lparr>t_begin = range_begin, t_end = range_end - 1, t_layout = fusion_layout\<rparr>,
                      \<lparr>t_begin = range_end, t_end = range_end, t_layout = fusion_layout\<rparr>]
                   else ranges @
                     [\<lparr>t_begin = range_begin, t_end = range_begin, t_layout = fusion_layout\<rparr>]);
                range_begin1 = tac_idx + 1;
                first1 = (if range_begin1 < length block then range_begin1 else first)
            in fuse_sweep w st block rest (range_begin1, fusion_layout, first1, ranges1))
         else
           (let (compat_operands, fusion_layout1) =
                  check_operands w st (block ! first) next fusion_layout
            in if \<not> compat_operands
               then
                 (let ranges1 =
                        (if range_begin < range_end
                         then ranges @
                           [\<lparr>t_begin = range_begin, t_end = range_end - 1,
                             t_layout = fusion_layout1\<rparr>]
                         else ranges @
                           [\<lparr>t_begin = range_begin, t_end = range_begin,
                             t_layout = fusion_layout1\<rparr>]);
                      range_begin1 = tac_idx;
                      first1 = (if range_begin1 < length block then range_begin1 else first)
                  in fuse_sweep w st block rest (range_begin1, fusion_layout1, first1, ranges1))
               else fuse_sweep w st block rest (range_begin, fusion_layout1, first, ranges)))"

definition fuse_ranges :: "world \<Rightarrow> symbol_table \<Rightarrow> tac_t list \<Rightarrow> triplet_t list" where
  "fuse_ranges w st block =
     (case fuse_sweep w st block [0..<length block] (0, CONSTANT, 0, []) of
        (range_begin, fusion_layout, first, ranges) \<Rightarrow>
          (if range_begin < length block
           then ranges @
             [\<lparr>t_begin = range_begin, t_end = length block - 1, t_layout = fusion_layout\<rparr>]
           else ranges))"

subsection \<open>Engine::fuse\_mode: scalar replacement\<close>

text \<open>
  The reference count of one TAC: what it appends to \<^verbatim>\<open>inputs\<close> and to \<^verbatim>\<open>outputs\<close>
  (the switch falls through from 3 to 2 to 1).
\<close>

definition tac_inputs :: "world \<Rightarrow> tac_t \<Rightarrow> nat list" where
  "tac_inputs w tac =
     (let n = tac_noperands w tac in
      (if n = 3 \<and> in2 tac \<noteq> in1 tac then [in2 tac] else []) @
      (if n = 3 \<or> n = 2 then [in1 tac] else []))"

definition tac_outputs :: "world \<Rightarrow> tac_t \<Rightarrow> nat list" where
  "tac_outputs w tac =
     (let n = tac_noperands w tac in if n = 3 \<or> n = 2 \<or> n = 1 then [out tac] else [])"

text \<open>
  The TACs \<^verbatim>\<open>block.tac(begin)\<close> to \<^verbatim>\<open>block.tac(end)\<close> of a range; the ranges that
  the sweep produces lie inside the block.
\<close>

definition range_tacs :: "tac_t list \<Rightarrow> triplet_t \<Rightarrow> tac_t list" where
  "range_tacs block r = take (Suc (t_end r) - t_begin r) (drop (t_begin r) block)"

text \<open>
  The operands of a range for which the source reaches its
  \<^verbatim>\<open>DEBUG(TAG, "Turning " << operand << " scalar.")\<close>: counted once in \<^verbatim>\<open>inputs\<close>,
  once in \<^verbatim>\<open>outputs\<close>, and in the temp set. The call \<^verbatim>\<open>symbol_table.turn_scalar\<close>
  is commented out in the source, so the loop changes nothing; \<open>fuse_mode\<close> below does
  not use the result.
\<close>

definition scalar_candidates :: "world \<Rightarrow> symbol_table \<Rightarrow> tac_t list \<Rightarrow> triplet_t \<Rightarrow> nat list" where
  "scalar_candidates w st block r =
     (let inputs = concat (map (tac_inputs w) (range_tacs block r));
          outputs = concat (map (tac_outputs w) (range_tacs block r));
          all_operands = sort (remdups (inputs @ outputs))
      in filter (\<lambda>operand. count_list inputs operand = 1 \<and> count_list outputs operand = 1
                   \<and> operand \<in> temp st) all_operands)"

subsection \<open>Engine::fuse\_mode\<close>

text \<open>The two loops over the block after the kernel is loaded and after it ran.\<close>

fun fuse_allocate ::
  "world \<Rightarrow> symbol_table \<Rightarrow> tac_t list \<Rightarrow> engine_state \<Rightarrow> bh_error \<times> engine_state" where
  "fuse_allocate w st [] s = (BH_SUCCESS, s)"
| "fuse_allocate w st (tac # tacs) s =
     (if op tac \<in> ARRAY_OPS
      then
        (let operand = operands st (out tac);
             s1 = (if layout operand = SCALAR \<and> \<not> data_set (bases s (base operand))
                   then s\<lparr>bases := (bases s)(base operand := (bases s (base operand))\<lparr>nelem := 1\<rparr>)\<rparr>
                   else s);
             (res, s2) = bh_vcache_malloc_base w (base operand) s1
         in if res \<noteq> BH_SUCCESS then (res, s2) else fuse_allocate w st tacs s2)
      else fuse_allocate w st tacs s)"

fun fuse_deallocate ::
  "world \<Rightarrow> symbol_table \<Rightarrow> tac_t list \<Rightarrow> engine_state \<Rightarrow> bh_error \<times> engine_state" where
  "fuse_deallocate w st [] s = (BH_SUCCESS, s)"
| "fuse_deallocate w st (tac # tacs) s =
     (if oper tac = FREE
      then
        (let (res, s1) = bh_vcache_free_base w (base (operands st (out tac))) s
         in if res \<noteq> BH_SUCCESS then (res, s1) else fuse_deallocate w st tacs s1)
      else fuse_deallocate w st tacs s)"

definition fuse_mode ::
  "engine_cfg \<Rightarrow> world \<Rightarrow> symbol_table \<Rightarrow> OPERATION set \<Rightarrow> tac_t list \<Rightarrow> engine_state
     \<Rightarrow> outcome \<times> engine_state" where
  "fuse_mode cfg w st omask block s =
     (let ranges = fuse_ranges w st block;
          turned = map (scalar_candidates w st block) ranges
      in if \<not> fst (symbolize w block) then (Returns BH_ERROR, s)
         else
           (let symb = snd (symbolize w block);
                (compile_res, s1) =
                  (if jit_enabled cfg \<and> mask_and omask ARRAY_OPS \<and> \<not> symbol_ready s symb
                   then compile_block cfg w symb ranges s else (True, s))
            in if \<not> compile_res then (Returns BH_ERROR, s1)
               else
                 (let (loaded, s2) =
                        (if mask_and omask ARRAY_OPS \<and> \<not> symbol_ready s1 symb
                         then storage_load w symb s1 else (True, s1))
                  in if \<not> loaded then (Returns BH_ERROR, s2)
                     else
                       (let (res, s3) = fuse_allocate w st block s2
                        in if res \<noteq> BH_SUCCESS then (Returns res, s3)
                           else
                             (case launch symb s3 of
                                (Crashes, s4) \<Rightarrow> (Crashes, s4)
                              | (Returns r, s4) \<Rightarrow>
                                 (let (res1, s5) = fuse_deallocate w st block s4
                                  in if res1 \<noteq> BH_SUCCESS then (Returns res1, s5)
                                     else (Returns BH_SUCCESS, s5)))))))"

subsection \<open>Engine::execute\<close>

text \<open>
  \<^verbatim>\<open>instrs_to_tacs\<close>, \<^verbatim>\<open>count_tmp\<close> and \<^verbatim>\<open>Dag\<close> are not among the sources: the model
  starts from what they hand to the loop, the symbol table and the subgraphs in order,
  each with its \<^verbatim>\<open>omask\<close> and its TACs in vertex order. The first component of the two
  loops says whether control came back; the status the helpers return is dropped, as
  in the source, where \<^verbatim>\<open>res\<close> is initialised to \<^verbatim>\<open>BH_SUCCESS\<close> and never assigned.
\<close>

record subgraph =
  omask :: "OPERATION set"
  vertices :: "tac_t list"

fun sij_vertices ::
  "engine_cfg \<Rightarrow> world \<Rightarrow> symbol_table \<Rightarrow> tac_t list \<Rightarrow> engine_state \<Rightarrow> bool \<times> engine_state" where
  "sij_vertices cfg w st [] s = (True, s)"
| "sij_vertices cfg w st (v # vs) s =
     (case sij_mode cfg w st [v] s of
        (Crashes, s1) \<Rightarrow> (False, s1)
      | (Returns r, s1) \<Rightarrow> sij_vertices cfg w st vs s1)"

fun execute_subgraphs ::
  "engine_cfg \<Rightarrow> world \<Rightarrow> symbol_table \<Rightarrow> subgraph list \<Rightarrow> engine_state \<Rightarrow> bool \<times> engine_state" where
  "execute_subgraphs cfg w st [] s = (True, s)"
| "execute_subgraphs cfg w st (g # gs) s =
     (if jit_fusion cfg \<and> \<not> mask_and (omask g) (NON_FUSABLE cfg) \<and> mask_and (omask g) ARRAY_OPS
      then
        (case fuse_mode cfg w st (omask g) (vertices g) s of
           (Crashes, s1) \<Rightarrow> (False, s1)
         | (Returns r, s1) \<Rightarrow> execute_subgraphs cfg w st gs s1)
      else
        (case sij_vertices cfg w st (vertices g) s of
           (False, s1) \<Rightarrow> (False, s1)
         | (True, s1) \<Rightarrow> execute_subgraphs cfg w st gs s1))"

definition execute ::
  "engine_cfg \<Rightarrow> world \<Rightarrow> symbol_table \<Rightarrow> subgraph list \<Rightarrow> engine_state
     \<Rightarrow> outcome \<times> engine_state" where
  "execute cfg w st graph s =
     (let res = BH_SUCCESS in
      case execute_subgraphs cfg w st graph (s\<lparr>exec_count := Suc (exec_count s)\<rparr>) of
        (False, s1) \<Rightarrow> (Crashes, s1)
      | (True, s1) \<Rightarrow> (Returns res, s1))"

text \<open>
  A helper invocation as \<open>execute\<close> makes it, and a run of such invocations over the
  lifetime of the engine.
\<close>

datatype invocation =
    SIJ symbol_table "tac_t list"
  | FUSE symbol_table "OPERATION set" "tac_t list"

fun invoke :: "engine_cfg \<Rightarrow> world \<Rightarrow> invocation \<Rightarrow> engine_state \<Rightarrow> outcome \<times> engine_state" where
  "invoke cfg w (SIJ st block) s = sij_mode cfg w st block s"
| "invoke cfg w (FUSE st m block) s = fuse_mode cfg w st m block s"

fun invoke_all :: "engine_cfg \<Rightarrow> world \<Rightarrow> invocation list \<Rightarrow> engine_state \<Rightarrow> engine_state" where
  "invoke_all cfg w [] s = s"
| "invoke_all cfg w (i # is) s = invoke_all cfg w is (snd (invoke cfg w i s))"

text \<open>
  The invocation reaches the JIT step for the symbol: an array operation in
  \<open>sij_mode\<close>; a block that \<open>symbolize\<close> accepts, under a subgraph with array
  operations, in \<open>fuse_mode\<close>.
\<close>

fun reaches_jit :: "world \<Rightarrow> invocation \<Rightarrow> string \<Rightarrow> bool" where
  "reaches_jit w (SIJ st block) symb =
     (case block of [] \<Rightarrow> False
      | tac # _ \<Rightarrow> op tac \<in> ARRAY_OPS \<and> snd (symbolize w block) = symb)"
| "reaches_jit w (FUSE st m block) symb =
     (fst (symbolize w block) \<and> snd (symbolize w block) = symb \<and> mask_and m ARRAY_OPS)"

subsection \<open>A concrete engine for the examples\<close>

text \<open>
  An instance of the collaborators: operand counts as the TAC shapes of the spec have
  them (a binary \<open>ZIP\<close> has three operands, a unary \<open>MAP\<close> two, a system TAC one), every
  pair of operands compatible, the symbol of a block spelled from its operations, and
  an outside world in which every call succeeds. Handle \<open>h\<close> is a contiguous view of
  base \<open>h\<close>; handle 2 is in the temp set; no base has a buffer and nothing is cached.
\<close>

definition mk_tac :: "OPERATION \<Rightarrow> OPERATOR \<Rightarrow> nat \<Rightarrow> nat \<Rightarrow> nat \<Rightarrow> tac_t" where
  "mk_tac o1 p a b c = \<lparr>op = o1, oper = p, out = a, in1 = b, in2 = c, ext_opcode = 0\<rparr>"

fun op_letter :: "OPERATION \<Rightarrow> char" where
  "op_letter MAP = CHR ''m''"
| "op_letter ZIP = CHR ''z''"
| "op_letter REDUCE = CHR ''r''"
| "op_letter SCAN = CHR ''c''"
| "op_letter GENERATE = CHR ''g''"
| "op_letter SYSTEM = CHR ''s''"
| "op_letter EXTENSION = CHR ''e''"
| "op_letter NOOP = CHR ''n''"

fun noperands0 :: "OPERATION \<Rightarrow> nat" where
  "noperands0 ZIP = 3"
| "noperands0 MAP = 2"
| "noperands0 SYSTEM = 1"
| "noperands0 NOOP = 0"
| "noperands0 REDUCE = 3"
| "noperands0 SCAN = 3"
| "noperands0 GENERATE = 3"
| "noperands0 EXTENSION = 3"

definition world0 :: world where
  "world0 =
     \<lparr>tac_noperands = (\<lambda>t. noperands0 (op t)),
      compatible = (\<lambda>a b. True),
      symbolize = (\<lambda>block. (block \<noteq> [], map (\<lambda>t. op_letter (op t)) block)),
      compile = (\<lambda>n symb. True),
      load = (\<lambda>n symb. True),
      vcache_malloc = (\<lambda>n b. BH_SUCCESS),
      vcache_free = (\<lambda>n b. BH_SUCCESS),
      extmethod = (\<lambda>n m opc. BH_SUCCESS)\<rparr>"

definition st0 :: symbol_table where
  "st0 = \<lparr>operands = (\<lambda>h. \<lparr>layout = CONTIGUOUS, base = h\<rparr>), temp = {2}\<rparr>"

definition cfg0 :: engine_cfg where
  "cfg0 = \<lparr>jit_enabled = True, jit_fusion = True, jit_dumpsrc = False,
            NON_FUSABLE = {REDUCE, SCAN, EXTENSION}\<rparr>"

definition engine0 :: engine_state where
  "engine0 =
     \<lparr>extensions = Map.empty, ready = {}, symbols = [], compiled = [], specialized = [],
      dumped = [], launched = [], malloced = [], freed = [], ext_called = [],
      bases = (\<lambda>b. \<lparr>data_set = False, nelem = 1000\<rparr>), exec_count = 0, ticks = 0\<rparr>"

subsection \<open>What one helper invocation may do to Storage and the compiler\<close>

text \<open>
  Between the states before and after a helper invocation: no symbol stops being
  ready, and the compiler ran not at all or once, on a symbol that was not ready.
\<close>

definition footprint :: "engine_state \<Rightarrow> engine_state \<Rightarrow> bool" where
  "footprint s s' =
     (ready s \<subseteq> ready s' \<and>
      (compiled s' = compiled s \<or> (\<exists>symb. symb \<notin> ready s \<and> compiled s' = compiled s @ [symb])))"

section \<open>The random extension (src/core/compute/cphvb\_compute\_random.cpp)\<close>

subsection \<open>The Mersenne Twister\<close>

text \<open>
  \<^verbatim>\<open>unsigned long\<close> is 64 bits wide where the \<^verbatim>\<open>gettimeofday\<close> branch of
  \<^verbatim>\<open>rk_initseed\<close> is compiled. The key array is a list of 624 words.
\<close>

type_synonym ulong = "64 word"

record rk_state =
  key :: "ulong list"
  pos :: nat

definition rk_N :: nat where "rk_N = 624"
definition rk_M :: nat where "rk_M = 397"
definition MATRIX_A :: ulong where "MATRIX_A = 0x9908b0df"
definition UPPER_MASK :: ulong where "UPPER_MASK = 0x80000000"
definition LOWER_MASK :: ulong where "LOWER_MASK = 0x7fffffff"
definition RK_STATE_LEN :: nat where "RK_STATE_LEN = 624"

text \<open>
  One assignment of the regeneration loops:
  \<^verbatim>\<open>y = (key[i] & UPPER_MASK) | (key[i+1] & LOWER_MASK);
  key[i] = other ^ (y>>1) ^ (-(y & 1) & MATRIX_A)\<close>.
\<close>

definition twist :: "ulong \<Rightarrow> ulong \<Rightarrow> ulong \<Rightarrow> ulong" where
  "twist other ki ki1 =
     (let y = (ki AND UPPER_MASK) OR (ki1 AND LOWER_MASK)
      in other XOR drop_bit 1 y XOR ((- (y AND 1)) AND MATRIX_A))"

text \<open>
  The two loops, \<open>n\<close> iterations from index \<open>i\<close>: the first reads \<^verbatim>\<open>key[i+M]\<close>, the second
  \<^verbatim>\<open>key[i+(M-N)]\<close>.
\<close>

fun regenerate_lo :: "nat \<Rightarrow> nat \<Rightarrow> ulong list \<Rightarrow> ulong list" where
  "regenerate_lo 0 i k = k"
| "regenerate_lo (Suc n) i k =
     regenerate_lo n (Suc i) (k[i := twist (k ! (i + rk_M)) (k ! i) (k ! (i + 1))])"

fun regenerate_hi :: "nat \<Rightarrow> nat \<Rightarrow> ulong list \<Rightarrow> ulong list" where
  "regenerate_hi 0 i k = k"
| "regenerate_hi (Suc n) i k =
     regenerate_hi n (Suc i) (k[i := twist (k ! (i - (rk_N - rk_M))) (k ! i) (k ! (i + 1))])"

definition regenerate :: "ulong list \<Rightarrow> ulong list" where
  "regenerate k =
     (let k1 = regenerate_lo (rk_N - rk_M) 0 k;
          k2 = regenerate_hi (rk_N - 1 - (rk_N - rk_M)) (rk_N - rk_M) k1
      in k2[rk_N - 1 := twist (k2 ! (rk_M - 1)) (k2 ! (rk_N - 1)) (k2 ! 0)])"

definition temper :: "ulong \<Rightarrow> ulong" where
  "temper y0 =
     (let y1 = y0 XOR drop_bit 11 y0;
          y2 = y1 XOR (push_bit 7 y1 AND 0x9d2c5680);
          y3 = y2 XOR (push_bit 15 y2 AND 0xefc60000)
      in y3 XOR drop_bit 18 y3)"

definition rk_random :: "rk_state \<Rightarrow> ulong \<times> rk_state" where
  "rk_random state =
     (let state1 = (if pos state = RK_STATE_LEN
                    then \<lparr>key = regenerate (key state), pos = 0\<rparr> else state)
      in (temper (key state1 ! pos state1), state1\<lparr>pos := Suc (pos state1)\<rparr>))"

text \<open>
  \<^verbatim>\<open>rk_seed\<close>: the loop writes \<^verbatim>\<open>key[pos] = seed\<close> for \<open>n\<close> positions from \<open>p\<close> on and
  steps the seed by Knuth's generator.
\<close>

definition seed_next :: "nat \<Rightarrow> ulong \<Rightarrow> ulong" where
  "seed_next p seed = (1812433253 * (seed XOR drop_bit 30 seed) + of_nat p + 1) AND 0xffffffff"

fun rk_seed_keys :: "nat \<Rightarrow> nat \<Rightarrow> ulong \<Rightarrow> ulong list" where
  "rk_seed_keys 0 p seed = []"
| "rk_seed_keys (Suc n) p seed = seed # rk_seed_keys n (Suc p) (seed_next p seed)"

definition rk_seed :: "ulong \<Rightarrow> rk_state" where
  "rk_seed seed =
     \<lparr>key = rk_seed_keys RK_STATE_LEN 0 (seed AND 0xffffffff), pos = RK_STATE_LEN\<rparr>"

definition rk_hash :: "ulong \<Rightarrow> ulong" where
  "rk_hash key0 =
     (let k1 = key0 + NOT (push_bit 15 key0);
          k2 = k1 XOR drop_bit 10 k1;
          k3 = k2 + push_bit 3 k2;
          k4 = k3 XOR drop_bit 6 k3;
          k5 = k4 + NOT (push_bit 11 k4)
      in k5 XOR drop_bit 16 k5)"

text \<open>
  What \<^verbatim>\<open>rk_initseed\<close> reads from the operating system: the process id and the time
  of day, each already converted to \<^verbatim>\<open>unsigned long\<close>.
\<close>

record os_env =
  pid :: ulong
  tv_sec :: ulong
  tv_usec :: ulong

definition initseed_value :: "os_env \<Rightarrow> ulong" where
  "initseed_value e = rk_hash (pid e) XOR rk_hash (tv_sec e) XOR rk_hash (tv_usec e)"

definition rk_initseed :: "os_env \<Rightarrow> rk_state" where
  "rk_initseed e = rk_seed (initseed_value e)"

subsection \<open>The element generators\<close>

text \<open>
  An element of the output array. The two floating-point generators compute their
  result from integers by floating-point arithmetic, which is not modelled: the element
  keeps the integers (\<open>Float32_of y\<close> is \<^verbatim>\<open>y * 2.3283064365387e-10\<close>, \<open>Float64_of a b\<close>
  is \<^verbatim>\<open>(a * 67108864.0 + b) / 9007199254740992.0\<close>).
\<close>

datatype elem =
    Int8 "8 word" | Int16 "16 word" | Int32 "32 word" | Int64 "64 word"
  | UInt8 "8 word" | UInt16 "16 word" | UInt32 "32 word" | UInt64 "64 word"
  | Float32_of ulong | Float64_of ulong ulong

definition rk_int8 :: "rk_state \<Rightarrow> elem \<times> rk_state" where
  "rk_int8 state = (case rk_random state of (y, s1) \<Rightarrow> (Int8 (ucast (y AND 0x7f)), s1))"

definition rk_int16 :: "rk_state \<Rightarrow> elem \<times> rk_state" where
  "rk_int16 state = (case rk_random state of (y, s1) \<Rightarrow> (Int16 (ucast (y AND 0x7fff)), s1))"

definition rk_int32 :: "rk_state \<Rightarrow> elem \<times> rk_state" where
  "rk_int32 state = (case rk_random state of (y, s1) \<Rightarrow> (Int32 (ucast (y AND 0x7fffffff)), s1))"

definition rk_int64 :: "rk_state \<Rightarrow> elem \<times> rk_state" where
  "rk_int64 state =
     (case rk_random state of (y1, s1) \<Rightarrow>
        (case rk_random s1 of (y2, s2) \<Rightarrow>
           (Int64 (push_bit 32 (y1 AND 0x7fffffff) OR y2), s2)))"

definition rk_uint8 :: "rk_state \<Rightarrow> elem \<times> rk_state" where
  "rk_uint8 state = (case rk_random state of (y, s1) \<Rightarrow> (UInt8 (ucast (y AND 0xff)), s1))"

definition rk_uint16 :: "rk_state \<Rightarrow> elem \<times> rk_state" where
  "rk_uint16 state = (case rk_random state of (y, s1) \<Rightarrow> (UInt16 (ucast (y AND 0xffff)), s1))"

definition rk_uint32 :: "rk_state \<Rightarrow> elem \<times> rk_state" where
  "rk_uint32 state = (case rk_random state of (y, s1) \<Rightarrow> (UInt32 (ucast y), s1))"

definition rk_uint64 :: "rk_state \<Rightarrow> elem \<times> rk_state" where
  "rk_uint64 state =
     (case rk_random state of (y1, s1) \<Rightarrow>
        (case rk_random s1 of (y2, s2) \<Rightarrow> (UInt64 (push_bit 32 y1 OR y2), s2)))"

definition rk_float :: "rk_state \<Rightarrow> elem \<times> rk_state" where
  "rk_float state = (case rk_random state of (y, s1) \<Rightarrow> (Float32_of y, s1))"

definition rk_double :: "rk_state \<Rightarrow> elem \<times> rk_state" where
  "rk_double state =
     (case rk_random state of (y1, s1) \<Rightarrow>
        (case rk_random s1 of (y2, s2) \<Rightarrow> (Float64_of (drop_bit 5 y1) (drop_bit 6 y2), s2)))"

subsection \<open>cphvb\_compute\_random\<close>

datatype cphvb_error = CPHVB_SUCCESS | CPHVB_OUT_OF_MEMORY | CPHVB_TYPE_NOT_SUPPORTED

datatype cphvb_type =
    CPHVB_BOOL | CPHVB_INT8 | CPHVB_INT16 | CPHVB_INT32 | CPHVB_INT64
  | CPHVB_UINT8 | CPHVB_UINT16 | CPHVB_UINT32 | CPHVB_UINT64
  | CPHVB_FLOAT32 | CPHVB_FLOAT64 | CPHVB_COMPLEX64 | CPHVB_COMPLEX128 | CPHVB_UNKNOWN

text \<open>
  The argument: the type of \<^verbatim>\<open>operand[0]\<close> and \<open>nelements\<close>, the value of
  \<^verbatim>\<open>cphvb_nelements(ary->ndim, ary->shape)\<close>.
\<close>

record cphvb_random_type =
  ary_type :: cphvb_type
  nelements :: int

text \<open>The loop \<^verbatim>\<open>for (i = 0; i < size; ++i) data[i] = rk(&state)\<close>, \<open>n\<close> iterations.\<close>

fun fill :: "(rk_state \<Rightarrow> elem \<times> rk_state) \<Rightarrow> nat \<Rightarrow> rk_state \<Rightarrow> elem list" where
  "fill rk 0 state = []"
| "fill rk (Suc n) state = (case rk state of (x, s1) \<Rightarrow> x # fill rk n s1)"

text \<open>
  The result is the status and the values written to \<^verbatim>\<open>data[0]\<close>, \<^verbatim>\<open>data[1]\<close> and so
  on. \<open>malloc_ok\<close> says whether \<^verbatim>\<open>cphvb_data_malloc\<close> succeeded.
\<close>

definition cphvb_compute_random ::
  "os_env \<Rightarrow> bool \<Rightarrow> cphvb_random_type \<Rightarrow> cphvb_error \<times> elem list" where
  "cphvb_compute_random e malloc_ok a =
     (if \<not> malloc_ok then (CPHVB_OUT_OF_MEMORY, [])
      else
        (let size = nat (nelements a);
             state = rk_initseed e
         in case ary_type a of
              CPHVB_INT8 \<Rightarrow> (CPHVB_SUCCESS, fill rk_int8 size state)
            | CPHVB_INT16 \<Rightarrow> (CPHVB_SUCCESS, fill rk_int16 size state)
            | CPHVB_INT32 \<Rightarrow> (CPHVB_SUCCESS, fill rk_int32 size state)
            | CPHVB_INT64 \<Rightarrow> (CPHVB_SUCCESS, fill rk_int64 size state)
            | CPHVB_UINT8 \<Rightarrow> (CPHVB_SUCCESS, fill rk_uint8 size state)
            | CPHVB_UINT16 \<Rightarrow> (CPHVB_SUCCESS, fill rk_uint16 size state)
            | CPHVB_UINT32 \<Rightarrow> (CPHVB_SUCCESS, fill rk_uint32 size state)
            | CPHVB_UINT64 \<Rightarrow> (CPHVB_SUCCESS, fill rk_uint64 size state)
            | CPHVB_FLOAT32 \<Rightarrow> (CPHVB_SUCCESS, fill rk_float size state)
            | CPHVB_FLOAT64 \<Rightarrow> (CPHVB_SUCCESS, fill rk_double size state)
            | CPHVB_BOOL \<Rightarrow> (CPHVB_TYPE_NOT_SUPPORTED, [])
            | CPHVB_COMPLEX64 \<Rightarrow> (CPHVB_TYPE_NOT_SUPPORTED, [])
            | CPHVB_COMPLEX128 \<Rightarrow> (CPHVB_TYPE_NOT_SUPPORTED, [])
            | CPHVB_UNKNOWN \<Rightarrow> (CPHVB_TYPE_NOT_SUPPORTED, [])))"

text \<open>The seed after \<open>n\<close> steps of the loop of \<^verbatim>\<open>rk_seed\<close>, from position \<open>p\<close>.\<close>

fun seed_iter :: "nat \<Rightarrow> nat \<Rightarrow> ulong \<Rightarrow> ulong" where
  "seed_iter 0 p seed = seed"
| "seed_iter (Suc n) p seed = seed_iter n (Suc p) (seed_next p seed)"

section \<open>The naive vector engine: executing a batch\<close>

subsection \<open>Instructions, base-array contents and the other libraries\<close>

text \<open>
  An instruction of the naive engine: its opcode (every built-in operation is
  \<open>BH_BUILTIN n\<close>), the id of its user function, the base array of its first operand,
  and, for the random user function, the type and the number of elements of that
  operand. The memory maps a base array to its data, \<open>None\<close> being a null data pointer.
\<close>

datatype bh_opcode =
  BH_NONE | BH_DISCARD | BH_SYNC | BH_FREE | BH_USERFUNC | BH_BUILTIN nat

record naive_instruction =
  n_opcode :: bh_opcode
  userfunc_id :: bh_intp
  out_base :: nat
  random_arg :: cphvb_random_type

type_synonym memory = "nat \<Rightarrow> elem list option"

text \<open>
  The victim cache, the built-in computation and the user functions other than
  \<^verbatim>\<open>bh_random\<close> belong to libraries that are not among the sources: each is a field of
  \<open>naive_world\<close> that maps the memory to a status and the memory after the call, and
  may answer differently at each position \<open>count\<close> of the batch. \<open>n_data_malloc\<close> is
  \<^verbatim>\<open>bh_data_malloc\<close>: the buffer that the base array has after the call, or \<open>None\<close>
  when the allocation failed. \<open>n_clock\<close> is what \<^verbatim>\<open>getpid\<close> and \<^verbatim>\<open>gettimeofday\<close>
  return while the instruction at a position runs.
\<close>

record naive_world =
  n_vcache_free :: "nat \<Rightarrow> naive_instruction \<Rightarrow> memory \<Rightarrow> bh_error \<times> memory"
  n_vcache_malloc :: "nat \<Rightarrow> naive_instruction \<Rightarrow> memory \<Rightarrow> bh_error \<times> memory"
  n_compute_apply :: "nat \<Rightarrow> naive_instruction \<Rightarrow> memory \<Rightarrow> bh_error \<times> memory"
  n_userfunc :: "nat \<Rightarrow> bh_userfunc_impl \<Rightarrow> naive_instruction \<Rightarrow> memory \<Rightarrow> bh_error \<times> memory"
  n_data_malloc :: "nat \<Rightarrow> naive_instruction \<Rightarrow> memory \<Rightarrow> elem list option"
  n_clock :: "nat \<Rightarrow> os_env"

subsection \<open>bh\_random\<close>

text \<open>
  \<^verbatim>\<open>bh_random\<close> returns \<^verbatim>\<open>bh_compute_random(arg, ve_arg)\<close>, which is the function of
  cphvb\_compute\_random.cpp under the later prefix of the library. The values it
  generates are written to the buffer from index 0 on.
\<close>

fun bh_status :: "cphvb_error \<Rightarrow> bh_error" where
  "bh_status CPHVB_SUCCESS = BH_SUCCESS"
| "bh_status CPHVB_OUT_OF_MEMORY = BH_OUT_OF_MEMORY"
| "bh_status CPHVB_TYPE_NOT_SUPPORTED = BH_TYPE_NOT_SUPPORTED"

definition overlay :: "elem list \<Rightarrow> elem list \<Rightarrow> elem list" where
  "overlay vals buf = vals @ drop (length vals) buf"

definition bh_random ::
  "naive_world \<Rightarrow> nat \<Rightarrow> naive_instruction \<Rightarrow> memory \<Rightarrow> bh_error \<times> memory" where
  "bh_random nw count inst mem =
     (case n_data_malloc nw count inst mem of
        None \<Rightarrow>
          (bh_status (fst (cphvb_compute_random (n_clock nw count) False (random_arg inst))),
           mem)
      | Some buf \<Rightarrow>
          (case cphvb_compute_random (n_clock nw count) True (random_arg inst) of
             (status, vals) \<Rightarrow>
               (bh_status status, mem(out_base inst \<mapsto> overlay vals buf))))"

text \<open>The call through a registered function pointer.\<close>

definition call_impl ::
  "naive_world \<Rightarrow> nat \<Rightarrow> bh_userfunc_impl \<Rightarrow> naive_instruction \<Rightarrow> memory
     \<Rightarrow> bh_error \<times> memory" where
  "call_impl nw count f inst mem =
     (case f of
        Bh_random \<Rightarrow> bh_random nw count inst mem
      | Bh_matmul \<Rightarrow> n_userfunc nw count f inst mem
      | Bh_nselect \<Rightarrow> n_userfunc nw count f inst mem
      | Foreign n \<Rightarrow> n_userfunc nw count f inst mem)"

subsection \<open>bh\_ve\_naive\_execute\<close>

text \<open>
  The switch of the loop body: the value of \<^verbatim>\<open>res\<close> after it, or a crash when the
  function pointer that is called is null, and the memory.
\<close>

definition call_slot ::
  "naive_world \<Rightarrow> nat \<Rightarrow> bh_userfunc_impl option \<Rightarrow> naive_instruction \<Rightarrow> memory
     \<Rightarrow> outcome \<times> memory" where
  "call_slot nw count slot inst mem =
     (case slot of
        None \<Rightarrow> (Crashes, mem)
      | Some f \<Rightarrow> (case call_impl nw count f inst mem of (res, m1) \<Rightarrow> (Returns res, m1)))"

definition naive_dispatch ::
  "naive_world \<Rightarrow> naive_state \<Rightarrow> nat \<Rightarrow> naive_instruction \<Rightarrow> memory
     \<Rightarrow> outcome \<times> memory" where
  "naive_dispatch nw s count inst mem =
     (case n_opcode inst of
        BH_NONE \<Rightarrow> (Returns BH_SUCCESS, mem)
      | BH_DISCARD \<Rightarrow> (Returns BH_SUCCESS, mem)
      | BH_SYNC \<Rightarrow> (Returns BH_SUCCESS, mem)
      | BH_FREE \<Rightarrow>
         (case n_vcache_free nw count inst mem of (res, m1) \<Rightarrow> (Returns res, m1))
      | BH_USERFUNC \<Rightarrow>
         (if userfunc_id inst = random_impl_id s
          then call_slot nw count (random_impl s) inst mem
          else if userfunc_id inst = matmul_impl_id s
          then call_slot nw count (matmul_impl s) inst mem
          else if userfunc_id inst = nselect_impl_id s
          then call_slot nw count (nselect_impl s) inst mem
          else (Returns BH_USERFUNC_NOT_SUPPORTED, mem))
      | BH_BUILTIN n \<Rightarrow>
         (case (if mem (out_base inst) = None then n_vcache_malloc nw count inst mem
                else (BH_SUCCESS, mem)) of
            (res, m1) \<Rightarrow>
              (if res \<noteq> BH_SUCCESS then (Returns res, m1)
               else (case n_compute_apply nw count inst m1 of
                       (res1, m2) \<Rightarrow> (Returns res1, m2)))))"

text \<open>
  The loop from position \<open>count\<close> on: the status returned, the number of instructions
  dispatched, and the memory.
\<close>

fun naive_execute_from ::
  "naive_world \<Rightarrow> naive_state \<Rightarrow> nat \<Rightarrow> naive_instruction list \<Rightarrow> memory
     \<Rightarrow> outcome \<times> nat \<times> memory" where
  "naive_execute_from nw s count [] mem = (Returns BH_SUCCESS, count, mem)"
| "naive_execute_from nw s count (inst # rest) mem =
     (case naive_dispatch nw s count inst mem of
        (Crashes, m1) \<Rightarrow> (Crashes, Suc count, m1)
      | (Returns res, m1) \<Rightarrow>
         (if res \<noteq> BH_SUCCESS then (Returns res, Suc count, m1)
          else naive_execute_from nw s (Suc count) rest m1))"

definition bh_ve_naive_execute ::
  "naive_world \<Rightarrow> naive_state \<Rightarrow> naive_instruction list \<Rightarrow> memory
     \<Rightarrow> outcome \<times> nat \<times> memory" where
  "bh_ve_naive_execute nw s instruction_list mem =
     naive_execute_from nw s 0 instruction_list mem"


section \<open>The fuser of the uni engine (src/ve/uni/main.cpp)\<close>

subsection \<open>Instructions and blocks\<close>

text \<open>
  A view is \<open>(base, start, shape, stride)\<close>. An instruction has an opcode and a fixed
  array of operand views, indexed from 0 (the output). A block has the members that
  main.cpp reads: \<^verbatim>\<open>_instr\<close> (null or an instruction), \<^verbatim>\<open>rank\<close>, \<^verbatim>\<open>size\<close>,
  \<^verbatim>\<open>_sweeps\<close>, \<^verbatim>\<open>_reshapable\<close> and \<^verbatim>\<open>_block_list\<close>.
\<close>

record bh_view =
  v_base :: nat
  v_start :: int
  v_shape :: "int list"
  v_stride :: "int list"

record bh_instruction =
  opcode :: nat
  operand :: "nat \<Rightarrow> bh_view"

datatype Block =
  Block (instr: "bh_instruction option") (rank: int) (size_b: int)
        (sweeps: "bh_instruction list") (reshapable: bool) (block_list: "Block list")

text \<open>
  The functions that main.cpp calls and the sources do not contain: of the core
  library \<^verbatim>\<open>bh_opcode_is_system\<close>, \<^verbatim>\<open>bh_noperands\<close>, \<^verbatim>\<open>bh_view_disjoint\<close> and
  \<^verbatim>\<open>bh_view_aligned\<close>; of block.hpp \<^verbatim>\<open>Block::isInstr\<close>, \<^verbatim>\<open>Block::getAllInstr\<close>,
  \<^verbatim>\<open>merge\<close> and \<^verbatim>\<open>create_nested_block\<close>, whose last argument is the set \<open>news\<close>.
\<close>

type_synonym news = "nat set"

record block_api =
  bh_opcode_is_system :: "nat \<Rightarrow> bool"
  bh_noperands :: "nat \<Rightarrow> nat"
  bh_view_disjoint :: "bh_view \<Rightarrow> bh_view \<Rightarrow> bool"
  bh_view_aligned :: "bh_view \<Rightarrow> bh_view \<Rightarrow> bool"
  isInstr :: "Block \<Rightarrow> bool"
  getAllInstr :: "Block \<Rightarrow> bh_instruction list"
  merge :: "Block \<Rightarrow> Block \<Rightarrow> Block"
  create_nested_block :: "bh_instruction list \<Rightarrow> int \<Rightarrow> int \<Rightarrow> news \<Rightarrow> Block"

subsection \<open>data\_parallel\_compatible\<close>

text \<open>
  One of the two loops of the instruction-level test: no operand \<open>i\<close> of \<open>a\<close> below
  \<open>bh_noperands\<close> is neither disjoint from nor aligned with the output of \<open>b\<close>.
\<close>

definition output_fits :: "block_api \<Rightarrow> bh_instruction \<Rightarrow> bh_instruction \<Rightarrow> bool" where
  "output_fits api b a =
     list_all (\<lambda>i. \<not> (\<not> bh_view_disjoint api (operand b 0) (operand a i)
                       \<and> \<not> bh_view_aligned api (operand b 0) (operand a i)))
       [0..<bh_noperands api (opcode a)]"

definition data_parallel_compatible_instr ::
  "block_api \<Rightarrow> bh_instruction \<Rightarrow> bh_instruction \<Rightarrow> bool" where
  "data_parallel_compatible_instr api a b =
     (if bh_opcode_is_system api (opcode a) \<or> bh_opcode_is_system api (opcode b) then True
      else if \<not> output_fits api b a then False
      else if \<not> output_fits api a b then False
      else True)"

definition data_parallel_compatible :: "block_api \<Rightarrow> Block \<Rightarrow> Block \<Rightarrow> bool" where
  "data_parallel_compatible api b1 b2 =
     list_all (\<lambda>i1. list_all (\<lambda>i2. data_parallel_compatible_instr api i1 i2)
                        (getAllInstr api b2))
       (getAllInstr api b1)"

subsection \<open>fuser\_serial\<close>

text \<open>The remainder of C++ on \<^verbatim>\<open>int64_t\<close>, for a divisor other than 0.\<close>

definition c_rem :: "int \<Rightarrow> int \<Rightarrow> int" where
  "c_rem a b = sgn a * (\<bar>a\<bar> mod \<bar>b\<bar>)"

text \<open>
  The body of the inner loop for the current block \<open>cur\<close> and the next block \<open>it\<close>:
  \<open>Stop\<close> is \<^verbatim>\<open>break\<close>, \<open>Continue b\<close> is \<^verbatim>\<open>cur = b; continue\<close>, and \<open>Abort\<close> is a
  failed \<^verbatim>\<open>assert\<close> or a remainder by zero.
\<close>

datatype step = Stop | Continue Block | Abort

definition fuser_serial_step :: "block_api \<Rightarrow> news \<Rightarrow> Block \<Rightarrow> Block \<Rightarrow> step" where
  "fuser_serial_step api nw cur it =
     (if isInstr api it then Stop
      else if \<not> data_parallel_compatible api cur it then Stop
      else if sweeps cur \<noteq> [] then Stop
      else if rank cur \<noteq> rank it then Abort
      else if size_b cur = size_b it then Continue (merge api cur it)
      else if reshapable it \<and> size_b cur = 0 then Abort
      else if reshapable it \<and> c_rem (size_b it) (size_b cur) = 0
      then
        (let b = create_nested_block api (getAllInstr api cur @ getAllInstr api it)
                   (rank it) (size_b cur) nw
         in if size_b b \<noteq> size_b cur then Abort else Continue b)
      else if reshapable cur \<and> size_b it = 0 then Abort
      else if reshapable cur \<and> c_rem (size_b cur) (size_b it) = 0
      then
        (let b = create_nested_block api (getAllInstr api cur @ getAllInstr api it)
                   (rank cur) (size_b it) nw
         in if size_b b \<noteq> size_b it then Abort else Continue b)
      else Stop)"

text \<open>
  The inner loop: the current block after the merges and the blocks left over, or
  \<open>None\<close> when the loop aborted.
\<close>

fun fuser_serial_inner ::
  "block_api \<Rightarrow> news \<Rightarrow> Block \<Rightarrow> Block list \<Rightarrow> (Block \<times> Block list) option" where
  "fuser_serial_inner api nw cur [] = Some (cur, [])"
| "fuser_serial_inner api nw cur (it # rest) =
     (case fuser_serial_step api nw cur it of
        Stop \<Rightarrow> Some (cur, it # rest)
      | Continue b \<Rightarrow> fuser_serial_inner api nw b rest
      | Abort \<Rightarrow> None)"

text \<open>
  \<open>fuser_serial\<close> calls itself on the block list of the merged block, which \<^verbatim>\<open>merge\<close>
  and \<^verbatim>\<open>create_nested_block\<close> build; the recursion is bounded by fuel.
\<close>

datatype fused = Fused "Block list" | Aborted | OutOfFuel

fun fuser_serial :: "nat \<Rightarrow> block_api \<Rightarrow> news \<Rightarrow> Block list \<Rightarrow> fused" where
  "fuser_serial 0 api nw bl = OutOfFuel"
| "fuser_serial (Suc n) api nw [] = Fused []"
| "fuser_serial (Suc n) api nw (b # rest) =
     (if isInstr api b
      then (case fuser_serial n api nw rest of
              Fused r \<Rightarrow> Fused (b # r)
            | Aborted \<Rightarrow> Aborted
            | OutOfFuel \<Rightarrow> OutOfFuel)
      else
        (case fuser_serial_inner api nw b rest of
           None \<Rightarrow> Aborted
         | Some (cur, rest1) \<Rightarrow>
            (case fuser_serial n api nw (block_list cur) of
               Fused sub \<Rightarrow>
                (case fuser_serial n api nw rest1 of
                   Fused r \<Rightarrow>
                     Fused (Block (instr cur) (rank cur) (size_b cur) (sweeps cur)
                              (reshapable cur) sub # r)
                 | Aborted \<Rightarrow> Aborted
                 | OutOfFuel \<Rightarrow> OutOfFuel)
             | Aborted \<Rightarrow> Aborted
             | OutOfFuel \<Rightarrow> OutOfFuel)))"

subsection \<open>A concrete block interface for the examples\<close>

text \<open>
  Opcode 0 is a system opcode and every instruction has three operands; two views are
  aligned when they are equal and disjoint when their bases differ. A block is an
  instruction block when its block list is empty; merging concatenates the block lists
  and nesting puts every instruction in a block of its own one rank down.
\<close>

fun all_instr :: "Block \<Rightarrow> bh_instruction list" where
  "all_instr (Block i r s sw rs bl) =
     (if bl = [] then (case i of None \<Rightarrow> [] | Some x \<Rightarrow> [x]) else concat (map all_instr bl))"

definition instr_block :: "int \<Rightarrow> bh_instruction \<Rightarrow> Block" where
  "instr_block r i = Block (Some i) r 0 [] False []"

definition api0 :: block_api where
  "api0 =
     \<lparr>bh_opcode_is_system = (\<lambda>opc. opc = 0),
      bh_noperands = (\<lambda>opc. 3),
      bh_view_disjoint = (\<lambda>a b. v_base a \<noteq> v_base b),
      bh_view_aligned = (\<lambda>a b. a = b),
      isInstr = (\<lambda>b. block_list b = []),
      getAllInstr = all_instr,
      merge = (\<lambda>a b. Block None (rank a) (size_b a) (sweeps a @ sweeps b)
                        (reshapable a \<and> reshapable b) (block_list a @ block_list b)),
      create_nested_block = (\<lambda>is r s nw. Block None r s [] False (map (instr_block (r + 1)) is))\<rparr>"

definition view0 :: "nat \<Rightarrow> int \<Rightarrow> bh_view" where
  "view0 b st = \<lparr>v_base = b, v_start = st, v_shape = [4], v_stride = [1]\<rparr>"

definition add0 :: "bh_view \<Rightarrow> bh_view \<Rightarrow> bh_view \<Rightarrow> bh_instruction" where
  "add0 x y z = \<lparr>opcode = 1, operand = (\<lambda>i. if i = 0 then x else if i = 1 then y else z)\<rparr>"

definition loop0 :: "int \<Rightarrow> bool \<Rightarrow> bh_instruction list \<Rightarrow> bh_instruction list \<Rightarrow> Block" where
  "loop0 s rs sw is = Block None 0 s sw rs (map (instr_block 1) is)"

section \<open>Registration in the naive engine\<close>

lemma reg_func_registered:
  assumes "impl_of fn s \<noteq> None"
  shows "bh_ve_naive_reg_func g fn j s = (BH_SUCCESS, id_of fn s, s)"
proof -
  consider "fn = ''bh_random''" | "fn = ''bh_matmul''" | "fn = ''bh_nselect''"
    | "fn \<noteq> ''bh_random'' \<and> fn \<noteq> ''bh_matmul'' \<and> fn \<noteq> ''bh_nselect''"
    by blast
  then show ?thesis
  proof cases
    case 1
    with assms show ?thesis
      by (auto simp add: bh_ve_naive_reg_func_def impl_of_def id_of_def)
  next
    case 2
    with assms show ?thesis
      by (auto simp add: bh_ve_naive_reg_func_def impl_of_def id_of_def)
  next
    case 3
    with assms show ?thesis
      by (auto simp add: bh_ve_naive_reg_func_def impl_of_def id_of_def)
  next
    case 4
    with assms show ?thesis by (simp add: impl_of_def)
  qed
qed

lemma keeps_random:
  "random_impl s = Some f \<Longrightarrow>
     random_impl (snd (snd (bh_ve_naive_reg_func g fn' j s))) = random_impl s
   \<and> random_impl_id (snd (snd (bh_ve_naive_reg_func g fn' j s))) = random_impl_id s"
  by (simp add: bh_ve_naive_reg_func_def Let_def)

lemma keeps_matmul:
  "matmul_impl s = Some f \<Longrightarrow>
     matmul_impl (snd (snd (bh_ve_naive_reg_func g fn' j s))) = matmul_impl s
   \<and> matmul_impl_id (snd (snd (bh_ve_naive_reg_func g fn' j s))) = matmul_impl_id s"
  by (simp add: bh_ve_naive_reg_func_def Let_def)

lemma keeps_nselect:
  "nselect_impl s = Some f \<Longrightarrow>
     nselect_impl (snd (snd (bh_ve_naive_reg_func g fn' j s))) = nselect_impl s
   \<and> nselect_impl_id (snd (snd (bh_ve_naive_reg_func g fn' j s))) = nselect_impl_id s"
  by (simp add: bh_ve_naive_reg_func_def Let_def)

lemma reg_func_keeps:
  assumes "impl_of fn s \<noteq> None"
  shows "impl_of fn (snd (snd (bh_ve_naive_reg_func g fn' j s))) = impl_of fn s
       \<and> id_of fn (snd (snd (bh_ve_naive_reg_func g fn' j s))) = id_of fn s"
proof -
  consider "fn = ''bh_random''" | "fn = ''bh_matmul''" | "fn = ''bh_nselect''"
    | "fn \<noteq> ''bh_random'' \<and> fn \<noteq> ''bh_matmul'' \<and> fn \<noteq> ''bh_nselect''"
    by blast
  then show ?thesis
  proof cases
    case 1
    with assms obtain f where "random_impl s = Some f" by (auto simp add: impl_of_def)
    from keeps_random [OF this] 1 show ?thesis by (simp add: impl_of_def id_of_def)
  next
    case 2
    with assms obtain f where "matmul_impl s = Some f" by (auto simp add: impl_of_def)
    from keeps_matmul [OF this] 2 show ?thesis by (simp add: impl_of_def id_of_def)
  next
    case 3
    with assms obtain f where "nselect_impl s = Some f" by (auto simp add: impl_of_def)
    from keeps_nselect [OF this] 3 show ?thesis by (simp add: impl_of_def id_of_def)
  next
    case 4
    with assms show ?thesis by (simp add: impl_of_def)
  qed
qed

lemma reg_funcs_keeps:
  "impl_of fn s \<noteq> None \<Longrightarrow>
     impl_of fn (reg_funcs calls s) = impl_of fn s \<and> id_of fn (reg_funcs calls s) = id_of fn s"
proof (induction calls arbitrary: s)
  case Nil
  then show ?case by simp
next
  case (Cons c calls)
  obtain g fn' j where c: "c = (g, fn', j)" by (cases c) auto
  let ?s1 = "snd (snd (bh_ve_naive_reg_func g fn' j s))"
  from Cons.prems have k: "impl_of fn ?s1 = impl_of fn s \<and> id_of fn ?s1 = id_of fn s"
    by (rule reg_func_keeps)
  with Cons.prems have "impl_of fn ?s1 \<noteq> None" by simp
  from Cons.IH [OF this] k show ?case by (simp add: c)
qed

lemma reg_func_success:
  assumes "fn \<in> set supported_names" and "impl_of fn s = None" and "g fn = Some f"
  shows "bh_ve_naive_reg_func g fn i s
           = (BH_SUCCESS, i, snd (snd (bh_ve_naive_reg_func g fn i s)))
       \<and> id_of fn (snd (snd (bh_ve_naive_reg_func g fn i s))) = i
       \<and> impl_of fn (snd (snd (bh_ve_naive_reg_func g fn i s))) = Some f"
proof -
  from assms(1) consider "fn = ''bh_random''" | "fn = ''bh_matmul''" | "fn = ''bh_nselect''"
    by (auto simp add: supported_names_def)
  then show ?thesis
  proof cases
    case 1
    with assms(2,3) show ?thesis
      by (simp add: bh_ve_naive_reg_func_def impl_of_def id_of_def Let_def)
  next
    case 2
    with assms(2,3) show ?thesis
      by (simp add: bh_ve_naive_reg_func_def impl_of_def id_of_def Let_def)
  next
    case 3
    with assms(2,3) show ?thesis
      by (simp add: bh_ve_naive_reg_func_def impl_of_def id_of_def Let_def)
  qed
qed

lemma reg_func_refused:
  assumes "fn \<in> set supported_names" and "impl_of fn s = None" and "g fn = None"
  shows "bh_ve_naive_reg_func g fn i s = (BH_USERFUNC_NOT_SUPPORTED, i, s)"
proof -
  from assms(1) consider "fn = ''bh_random''" | "fn = ''bh_matmul''" | "fn = ''bh_nselect''"
    by (auto simp add: supported_names_def)
  then show ?thesis
  proof cases
    case 1
    with assms(2) have "s\<lparr>random_impl := None\<rparr> = s" by (cases s) (simp add: impl_of_def)
    with 1 assms(2,3) show ?thesis
      by (simp add: bh_ve_naive_reg_func_def impl_of_def Let_def)
  next
    case 2
    with assms(2) have "s\<lparr>matmul_impl := None\<rparr> = s" by (cases s) (simp add: impl_of_def)
    with 2 assms(2,3) show ?thesis
      by (simp add: bh_ve_naive_reg_func_def impl_of_def Let_def)
  next
    case 3
    with assms(2) have "s\<lparr>nselect_impl := None\<rparr> = s" by (cases s) (simp add: impl_of_def)
    with 3 assms(2,3) show ?thesis
      by (simp add: bh_ve_naive_reg_func_def impl_of_def Let_def)
  qed
qed

text \<open>
  Claim C10. For each of the three supported names, a call of \<open>bh_ve_naive_reg_func\<close>
  while no implementation is registered for the name fails and changes nothing when
  the component library finds no function, and otherwise succeeds: it leaves the
  caller's id untouched, records it as the function's id, and registers the function
  that the library found. After any further registration calls, a call with the same
  name returns \<open>BH_SUCCESS\<close>, writes the id recorded by that first successful call into
  \<^verbatim>\<open>*id\<close>, and leaves every static, so also the registered implementation, unchanged.
  A name other than the three returns \<open>BH_USERFUNC_NOT_SUPPORTED\<close> and changes nothing.
\<close>

theorem reg_func_idempotent:
  assumes "fn \<in> set supported_names"
    and "impl_of fn s = None"
    and "g fn = Some f"
    and "s1 = snd (snd (bh_ve_naive_reg_func g fn i s))"
    and "s2 = reg_funcs calls s1"
    and "other \<notin> set supported_names"
  shows "bh_ve_naive_reg_func g fn i s = (BH_SUCCESS, i, s1)
       \<and> id_of fn s1 = i \<and> impl_of fn s1 = Some f
       \<and> bh_ve_naive_reg_func g2 fn j s2 = (BH_SUCCESS, i, s2)
       \<and> impl_of fn s2 = Some f
       \<and> bh_ve_naive_reg_func g3 other k s3 = (BH_USERFUNC_NOT_SUPPORTED, k, s3)
       \<and> (g0 fn = None \<longrightarrow>
            bh_ve_naive_reg_func g0 fn i s = (BH_USERFUNC_NOT_SUPPORTED, i, s))"
proof -
  from reg_func_success [of fn s g f i] assms(1-4)
  have first: "bh_ve_naive_reg_func g fn i s = (BH_SUCCESS, i, s1)
               \<and> id_of fn s1 = i \<and> impl_of fn s1 = Some f"
    by simp
  then have reg: "impl_of fn s1 \<noteq> None" by simp
  from reg_funcs_keeps [OF reg, of calls] assms(5)
  have keep: "impl_of fn s2 = impl_of fn s1 \<and> id_of fn s2 = id_of fn s1" by simp
  with reg have "impl_of fn s2 \<noteq> None" by simp
  from reg_func_registered [OF this, of g2 j] keep first
  have later: "bh_ve_naive_reg_func g2 fn j s2 = (BH_SUCCESS, i, s2)" by simp
  from assms(6)
  have unknown: "bh_ve_naive_reg_func g3 other k s3 = (BH_USERFUNC_NOT_SUPPORTED, k, s3)"
    by (simp add: bh_ve_naive_reg_func_def supported_names_def)
  have refused: "g0 fn = None \<longrightarrow>
                   bh_ve_naive_reg_func g0 fn i s = (BH_USERFUNC_NOT_SUPPORTED, i, s)"
    using reg_func_refused [of fn s g0 i] assms(1,2) by blast
  from first keep later unknown refused show ?thesis by simp
qed

theorem reg_func_idempotent_witness:
  "bh_ve_naive_reg_func (\<lambda>n. Some Bh_random) ''bh_random'' 3 naive_initial
     = (BH_SUCCESS, 3, naive_initial\<lparr>random_impl := Some Bh_random, random_impl_id := 3\<rparr>)
   \<and> bh_ve_naive_reg_func (\<lambda>n. None) ''bh_random'' 11
       (reg_funcs [(\<lambda>n. Some Bh_matmul, ''bh_matmul'', 4), (\<lambda>n. Some (Foreign 1), ''bh_random'', 7)]
          (naive_initial\<lparr>random_impl := Some Bh_random, random_impl_id := 3\<rparr>))
     = (BH_SUCCESS, 3,
        reg_funcs [(\<lambda>n. Some Bh_matmul, ''bh_matmul'', 4), (\<lambda>n. Some (Foreign 1), ''bh_random'', 7)]
          (naive_initial\<lparr>random_impl := Some Bh_random, random_impl_id := 3\<rparr>))
   \<and> bh_ve_naive_reg_func (\<lambda>n. Some Bh_matmul) ''bh_matmul'' 5 naive_initial
     = (BH_SUCCESS, 5, naive_initial\<lparr>matmul_impl := Some Bh_matmul, matmul_impl_id := 5\<rparr>)
   \<and> bh_ve_naive_reg_func (\<lambda>n. None) ''bh_matmul'' 11
       (reg_funcs [(\<lambda>n. Some Bh_random, ''bh_random'', 4), (\<lambda>n. Some (Foreign 1), ''bh_matmul'', 7)]
          (naive_initial\<lparr>matmul_impl := Some Bh_matmul, matmul_impl_id := 5\<rparr>))
     = (BH_SUCCESS, 5,
        reg_funcs [(\<lambda>n. Some Bh_random, ''bh_random'', 4), (\<lambda>n. Some (Foreign 1), ''bh_matmul'', 7)]
          (naive_initial\<lparr>matmul_impl := Some Bh_matmul, matmul_impl_id := 5\<rparr>))
   \<and> bh_ve_naive_reg_func (\<lambda>n. Some (Foreign 9)) ''bh_nselect'' 8 naive_initial
     = (BH_SUCCESS, 8, naive_initial\<lparr>nselect_impl := Some (Foreign 9), nselect_impl_id := 8\<rparr>)
   \<and> bh_ve_naive_reg_func (\<lambda>n. None) ''bh_nselect'' 11
       (reg_funcs [(\<lambda>n. Some Bh_random, ''bh_random'', 4), (\<lambda>n. Some Bh_nselect, ''bh_nselect'', 7)]
          (naive_initial\<lparr>nselect_impl := Some (Foreign 9), nselect_impl_id := 8\<rparr>))
     = (BH_SUCCESS, 8,
        reg_funcs [(\<lambda>n. Some Bh_random, ''bh_random'', 4), (\<lambda>n. Some Bh_nselect, ''bh_nselect'', 7)]
          (naive_initial\<lparr>nselect_impl := Some (Foreign 9), nselect_impl_id := 8\<rparr>))
   \<and> bh_ve_naive_reg_func (\<lambda>n. Some (Foreign 1)) ''bh_fft'' 2 naive_initial
     = (BH_USERFUNC_NOT_SUPPORTED, 2, naive_initial)
   \<and> bh_ve_naive_reg_func (\<lambda>n. None) ''bh_random'' 3 naive_initial
     = (BH_USERFUNC_NOT_SUPPORTED, 3, naive_initial)"
proof -
  let ?cr = "[(\<lambda>n. Some Bh_matmul, ''bh_matmul'', 4), (\<lambda>n. Some (Foreign 1), ''bh_random'', 7)]"
  let ?cm = "[(\<lambda>n. Some Bh_random, ''bh_random'', 4), (\<lambda>n. Some (Foreign 1), ''bh_matmul'', 7)]"
  let ?cn = "[(\<lambda>n. Some Bh_random, ''bh_random'', 4), (\<lambda>n. Some Bh_nselect, ''bh_nselect'', 7)]"
  have sup: "''bh_random'' \<in> set supported_names" "''bh_matmul'' \<in> set supported_names"
    "''bh_nselect'' \<in> set supported_names" "''bh_fft'' \<notin> set supported_names"
    by (simp_all add: supported_names_def)
  have none: "impl_of ''bh_random'' naive_initial = None"
    "impl_of ''bh_matmul'' naive_initial = None" "impl_of ''bh_nselect'' naive_initial = None"
    by (simp_all add: impl_of_def naive_initial_def)
  have er: "snd (snd (bh_ve_naive_reg_func (\<lambda>n. Some Bh_random) ''bh_random'' 3 naive_initial))
              = naive_initial\<lparr>random_impl := Some Bh_random, random_impl_id := 3\<rparr>"
    by (simp add: bh_ve_naive_reg_func_def naive_initial_def)
  have em: "snd (snd (bh_ve_naive_reg_func (\<lambda>n. Some Bh_matmul) ''bh_matmul'' 5 naive_initial))
              = naive_initial\<lparr>matmul_impl := Some Bh_matmul, matmul_impl_id := 5\<rparr>"
    by (simp add: bh_ve_naive_reg_func_def naive_initial_def)
  have en: "snd (snd (bh_ve_naive_reg_func (\<lambda>n. Some (Foreign 9)) ''bh_nselect'' 8 naive_initial))
              = naive_initial\<lparr>nselect_impl := Some (Foreign 9), nselect_impl_id := 8\<rparr>"
    by (simp add: bh_ve_naive_reg_func_def naive_initial_def)
  have r:
    "bh_ve_naive_reg_func (\<lambda>n. Some Bh_random) ''bh_random'' 3 naive_initial = (BH_SUCCESS, 3, naive_initial\<lparr>random_impl := Some Bh_random, random_impl_id := 3\<rparr>)
     \<and> bh_ve_naive_reg_func (\<lambda>n. None) ''bh_random'' 11 (reg_funcs [(\<lambda>n. Some Bh_matmul, ''bh_matmul'', 4), (\<lambda>n. Some (Foreign 1), ''bh_random'', 7)] (naive_initial\<lparr>random_impl := Some Bh_random, random_impl_id := 3\<rparr>))
         = (BH_SUCCESS, 3, reg_funcs [(\<lambda>n. Some Bh_matmul, ''bh_matmul'', 4), (\<lambda>n. Some (Foreign 1), ''bh_random'', 7)] (naive_initial\<lparr>random_impl := Some Bh_random, random_impl_id := 3\<rparr>))
     \<and> bh_ve_naive_reg_func (\<lambda>n. Some (Foreign 1)) ''bh_fft'' 2 naive_initial
         = (BH_USERFUNC_NOT_SUPPORTED, 2, naive_initial)
     \<and> bh_ve_naive_reg_func (\<lambda>n. None) ''bh_random'' 3 naive_initial
         = (BH_USERFUNC_NOT_SUPPORTED, 3, naive_initial)"
    using reg_func_idempotent [where fn = "''bh_random''" and s = naive_initial
        and g = "\<lambda>n. Some Bh_random" and f = "Bh_random" and i = 3
        and ?s1.0 = "naive_initial\<lparr>random_impl := Some Bh_random, random_impl_id := 3\<rparr>"
        and ?s2.0 = "reg_funcs [(\<lambda>n. Some Bh_matmul, ''bh_matmul'', 4), (\<lambda>n. Some (Foreign 1), ''bh_random'', 7)] (naive_initial\<lparr>random_impl := Some Bh_random, random_impl_id := 3\<rparr>)"
        and calls = "[(\<lambda>n. Some Bh_matmul, ''bh_matmul'', 4), (\<lambda>n. Some (Foreign 1), ''bh_random'', 7)]" and other = "''bh_fft''" and ?g2.0 = "\<lambda>n. None" and j = 11
        and ?g3.0 = "\<lambda>n. Some (Foreign 1)" and k = 2 and ?s3.0 = naive_initial
        and ?g0.0 = "\<lambda>n. None"]
      sup none er
    by simp
  have m:
    "bh_ve_naive_reg_func (\<lambda>n. Some Bh_matmul) ''bh_matmul'' 5 naive_initial = (BH_SUCCESS, 5, naive_initial\<lparr>matmul_impl := Some Bh_matmul, matmul_impl_id := 5\<rparr>)
     \<and> bh_ve_naive_reg_func (\<lambda>n. None) ''bh_matmul'' 11 (reg_funcs [(\<lambda>n. Some Bh_random, ''bh_random'', 4), (\<lambda>n. Some (Foreign 1), ''bh_matmul'', 7)] (naive_initial\<lparr>matmul_impl := Some Bh_matmul, matmul_impl_id := 5\<rparr>))
         = (BH_SUCCESS, 5, reg_funcs [(\<lambda>n. Some Bh_random, ''bh_random'', 4), (\<lambda>n. Some (Foreign 1), ''bh_matmul'', 7)] (naive_initial\<lparr>matmul_impl := Some Bh_matmul, matmul_impl_id := 5\<rparr>))"
    using reg_func_idempotent [where fn = "''bh_matmul''" and s = naive_initial
        and g = "\<lambda>n. Some Bh_matmul" and f = "Bh_matmul" and i = 5
        and ?s1.0 = "naive_initial\<lparr>matmul_impl := Some Bh_matmul, matmul_impl_id := 5\<rparr>"
        and ?s2.0 = "reg_funcs [(\<lambda>n. Some Bh_random, ''bh_random'', 4), (\<lambda>n. Some (Foreign 1), ''bh_matmul'', 7)] (naive_initial\<lparr>matmul_impl := Some Bh_matmul, matmul_impl_id := 5\<rparr>)"
        and calls = "[(\<lambda>n. Some Bh_random, ''bh_random'', 4), (\<lambda>n. Some (Foreign 1), ''bh_matmul'', 7)]" and other = "''bh_fft''" and ?g2.0 = "\<lambda>n. None" and j = 11
        and ?g3.0 = "\<lambda>n. Some (Foreign 1)" and k = 2 and ?s3.0 = naive_initial
        and ?g0.0 = "\<lambda>n. None"]
      sup none em
    by simp
  have n:
    "bh_ve_naive_reg_func (\<lambda>n. Some (Foreign 9)) ''bh_nselect'' 8 naive_initial = (BH_SUCCESS, 8, naive_initial\<lparr>nselect_impl := Some (Foreign 9), nselect_impl_id := 8\<rparr>)
     \<and> bh_ve_naive_reg_func (\<lambda>n. None) ''bh_nselect'' 11 (reg_funcs [(\<lambda>n. Some Bh_random, ''bh_random'', 4), (\<lambda>n. Some Bh_nselect, ''bh_nselect'', 7)] (naive_initial\<lparr>nselect_impl := Some (Foreign 9), nselect_impl_id := 8\<rparr>))
         = (BH_SUCCESS, 8, reg_funcs [(\<lambda>n. Some Bh_random, ''bh_random'', 4), (\<lambda>n. Some Bh_nselect, ''bh_nselect'', 7)] (naive_initial\<lparr>nselect_impl := Some (Foreign 9), nselect_impl_id := 8\<rparr>))"
    using reg_func_idempotent [where fn = "''bh_nselect''" and s = naive_initial
        and g = "\<lambda>n. Some (Foreign 9)" and f = "Foreign 9" and i = 8
        and ?s1.0 = "naive_initial\<lparr>nselect_impl := Some (Foreign 9), nselect_impl_id := 8\<rparr>"
        and ?s2.0 = "reg_funcs [(\<lambda>n. Some Bh_random, ''bh_random'', 4), (\<lambda>n. Some Bh_nselect, ''bh_nselect'', 7)] (naive_initial\<lparr>nselect_impl := Some (Foreign 9), nselect_impl_id := 8\<rparr>)"
        and calls = "[(\<lambda>n. Some Bh_random, ''bh_random'', 4), (\<lambda>n. Some Bh_nselect, ''bh_nselect'', 7)]" and other = "''bh_fft''" and ?g2.0 = "\<lambda>n. None" and j = 11
        and ?g3.0 = "\<lambda>n. Some (Foreign 1)" and k = 2 and ?s3.0 = naive_initial
        and ?g0.0 = "\<lambda>n. None"]
      sup none en
    by simp
  from r m n show ?thesis by blast
qed

section \<open>The CPU engine: evaluation on concrete batches\<close>

lemmas engine_eval =
  mk_tac_def world0_def st0_def cfg0_def engine0_def
  sij_mode_def sij_array_op_def fuse_mode_def compile_block_def storage_load_def
  launch_def symbol_ready_def bh_vcache_malloc_base_def bh_vcache_free_base_def
  execute_def fuse_ranges_def check_operands_def note_layout_def
  scalar_candidates_def tac_inputs_def tac_outputs_def range_tacs_def
  ARRAY_OPS_def mask_and_def Let_def

lemma execute_status:
  "fst (execute cfg w st graph s) = Returns BH_SUCCESS \<or> fst (execute cfg w st graph s) = Crashes"
  by (simp add: execute_def split: prod.splits bool.splits)

text \<open>
  Claim C1 says that \<open>execute\<close> stops at the first helper that returns a non-success
  status and returns that status. On the batch \<open>MAP(1,0); FREE(0)\<close>, run without fusion
  while the compiler fails, \<open>sij_mode\<close> returns \<open>BH_ERROR\<close> for the first TAC; \<open>execute\<close>
  goes on to the second TAC, frees base 0, and returns \<open>BH_SUCCESS\<close>.
\<close>

theorem execute_drops_helper_status:
  "fst (sij_mode (cfg0\<lparr>jit_fusion := False\<rparr>) (world0\<lparr>compile := (\<lambda>n symb. False)\<rparr>) st0
          [mk_tac MAP (ARITH 0) 1 0 0] engine0) = Returns BH_ERROR
   \<and> fst (execute (cfg0\<lparr>jit_fusion := False\<rparr>) (world0\<lparr>compile := (\<lambda>n symb. False)\<rparr>) st0
          [\<lparr>omask = {MAP, SYSTEM},
            vertices = [mk_tac MAP (ARITH 0) 1 0 0, mk_tac SYSTEM FREE 0 0 0]\<rparr>] engine0)
       = Returns BH_SUCCESS
   \<and> freed (snd (execute (cfg0\<lparr>jit_fusion := False\<rparr>) (world0\<lparr>compile := (\<lambda>n symb. False)\<rparr>) st0
          [\<lparr>omask = {MAP, SYSTEM},
            vertices = [mk_tac MAP (ARITH 0) 1 0 0, mk_tac SYSTEM FREE 0 0 0]\<rparr>] engine0))
       = [0]"
  by (simp add: engine_eval)

text \<open>
  Claim C9 says that an EXTENSION instruction whose opcode has no registered
  implementation makes \<open>execute\<close> return an unsupported-user-function error. With an
  empty extensions map, \<open>sij_mode\<close> returns \<open>BH_SUCCESS\<close> and leaves the engine as it was,
  and so does \<open>execute\<close> (apart from its execution counter).
\<close>

theorem unregistered_extension_skipped:
  "sij_mode cfg0 world0 st0 [mk_tac EXTENSION (ARITH 0) 1 0 0] engine0
     = (Returns BH_SUCCESS, engine0)
   \<and> execute cfg0 world0 st0
        [\<lparr>omask = {EXTENSION}, vertices = [mk_tac EXTENSION (ARITH 0) 1 0 0]\<rparr>] engine0
     = (Returns BH_SUCCESS, engine0\<lparr>exec_count := 1\<rparr>)"
  by (simp add: engine_eval)

text \<open>
  Claim C4 says that the sweep skips SYSTEM and NOOP TACs, which neither close the
  current range nor end it. In the source the skip test is a conjunction that never
  holds: a SYSTEM TAC, and likewise a NOOP TAC, between two compatible ZIPs closes the
  range before it and forms a range of its own, so that three ranges result where the
  claim has the single range 0 to 2.
\<close>

theorem fuse_ranges_split_at_system:
  "fuse_ranges world0 st0
      [mk_tac ZIP (ARITH 0) 2 0 1, mk_tac SYSTEM SYNC 2 0 0, mk_tac ZIP (ARITH 1) 3 2 0]
     = [\<lparr>t_begin = 0, t_end = 0, t_layout = CONTIGUOUS\<rparr>,
        \<lparr>t_begin = 1, t_end = 1, t_layout = CONTIGUOUS\<rparr>,
        \<lparr>t_begin = 2, t_end = 2, t_layout = CONTIGUOUS\<rparr>]
   \<and> fuse_ranges world0 st0
      [mk_tac ZIP (ARITH 0) 2 0 1, mk_tac NOOP NONE 0 0 0, mk_tac ZIP (ARITH 1) 3 2 0]
     = [\<lparr>t_begin = 0, t_end = 0, t_layout = CONTIGUOUS\<rparr>,
        \<lparr>t_begin = 1, t_end = 1, t_layout = CONTIGUOUS\<rparr>,
        \<lparr>t_begin = 2, t_end = 2, t_layout = CONTIGUOUS\<rparr>]"
  by (simp add: engine_eval upt_rec)

text \<open>
  Claim C2 says that an operand written once and read once in a fuse range, and in the
  temp set, gets no base buffer and no FREE. On the block
  \<open>ZIP(2,0,1); ZIP(3,2,0); FREE(2)\<close> with handle 2 in the temp set, the ranges are 0 to 1
  and 2 to 2, handle 2 is the one operand of the first range that meets the three
  conditions, and \<open>fuse_mode\<close> still hands its base to the victim cache for allocation
  and, at the FREE, for release.
\<close>

theorem scalar_candidate_allocated_and_freed:
  "fuse_ranges world0 st0
      [mk_tac ZIP (ARITH 0) 2 0 1, mk_tac ZIP (ARITH 1) 3 2 0, mk_tac SYSTEM FREE 2 0 0]
     = [\<lparr>t_begin = 0, t_end = 1, t_layout = CONTIGUOUS\<rparr>,
        \<lparr>t_begin = 2, t_end = 2, t_layout = CONTIGUOUS\<rparr>]
   \<and> scalar_candidates world0 st0
        [mk_tac ZIP (ARITH 0) 2 0 1, mk_tac ZIP (ARITH 1) 3 2 0, mk_tac SYSTEM FREE 2 0 0]
        \<lparr>t_begin = 0, t_end = 1, t_layout = CONTIGUOUS\<rparr> = [2]
   \<and> fst (fuse_mode cfg0 world0 st0 {ZIP, SYSTEM}
        [mk_tac ZIP (ARITH 0) 2 0 1, mk_tac ZIP (ARITH 1) 3 2 0, mk_tac SYSTEM FREE 2 0 0]
        engine0) = Returns BH_SUCCESS
   \<and> malloced (snd (fuse_mode cfg0 world0 st0 {ZIP, SYSTEM}
        [mk_tac ZIP (ARITH 0) 2 0 1, mk_tac ZIP (ARITH 1) 3 2 0, mk_tac SYSTEM FREE 2 0 0]
        engine0)) = [2, 3]
   \<and> freed (snd (fuse_mode cfg0 world0 st0 {ZIP, SYSTEM}
        [mk_tac ZIP (ARITH 0) 2 0 1, mk_tac ZIP (ARITH 1) 3 2 0, mk_tac SYSTEM FREE 2 0 0]
        engine0)) = [2]"
  by (simp add: engine_eval upt_rec)

section \<open>The CPU engine: Storage and the compiler\<close>

lemma compile_block_eq:
  "compile_block cfg w symb r s = (c, s') \<Longrightarrow>
     c = compile w (ticks s) symb \<and> ready s' = ready s \<and> compiled s' = compiled s @ [symb]
     \<and> symbols s' = (if c then symbols s @ [symb] else symbols s)"
  by (auto simp add: compile_block_def Let_def split: if_splits)

lemma storage_load_eq:
  "storage_load w symb s = (l, s') \<Longrightarrow>
     ready s \<subseteq> ready s' \<and> compiled s' = compiled s \<and> symbols s' = symbols s"
  by (auto simp add: storage_load_def split: if_splits)

lemma malloc_base_eq:
  "bh_vcache_malloc_base w b s = (r, s') \<Longrightarrow>
     ready s' = ready s \<and> compiled s' = compiled s \<and> symbols s' = symbols s"
  by (auto simp add: bh_vcache_malloc_base_def Let_def split: if_splits)

lemma free_base_eq:
  "bh_vcache_free_base w b s = (r, s') \<Longrightarrow>
     ready s' = ready s \<and> compiled s' = compiled s \<and> symbols s' = symbols s"
  by (auto simp add: bh_vcache_free_base_def Let_def split: if_splits)

lemma launch_eq:
  "launch symb s = (r, s') \<Longrightarrow>
     ready s' = ready s \<and> compiled s' = compiled s \<and> symbols s' = symbols s"
  by (auto simp add: launch_def split: if_splits)

lemma fuse_allocate_eq:
  "fuse_allocate w st block s = (r, s') \<Longrightarrow>
     ready s' = ready s \<and> compiled s' = compiled s \<and> symbols s' = symbols s"
proof (induction block arbitrary: s)
  case Nil
  then show ?case by simp
next
  case (Cons tac tacs)
  show ?case
  proof (cases "op tac \<in> ARRAY_OPS")
    case False
    with Cons show ?thesis by simp
  next
    case True
    let ?operand = "operands st (out tac)"
    let ?s1 = "if layout ?operand = SCALAR \<and> \<not> data_set (bases s (base ?operand))
               then s\<lparr>bases := (bases s)(base ?operand := (bases s (base ?operand))\<lparr>nelem := 1\<rparr>)\<rparr>
               else s"
    obtain res s2 where m: "bh_vcache_malloc_base w (base ?operand) ?s1 = (res, s2)"
      by (cases "bh_vcache_malloc_base w (base ?operand) ?s1") auto
    from malloc_base_eq [OF m]
    have k: "ready s2 = ready s \<and> compiled s2 = compiled s \<and> symbols s2 = symbols s"
      by (simp split: if_splits)
    show ?thesis
    proof (cases "res = BH_SUCCESS")
      case False
      with Cons.prems True m have "s' = s2" by (simp add: Let_def)
      with k show ?thesis by simp
    next
      case ok: True
      with Cons.prems True m have "fuse_allocate w st tacs s2 = (r, s')" by (simp add: Let_def)
      from Cons.IH [OF this] k show ?thesis by simp
    qed
  qed
qed

lemma fuse_deallocate_eq:
  "fuse_deallocate w st block s = (r, s') \<Longrightarrow>
     ready s' = ready s \<and> compiled s' = compiled s \<and> symbols s' = symbols s"
proof (induction block arbitrary: s)
  case Nil
  then show ?case by simp
next
  case (Cons tac tacs)
  show ?case
  proof (cases "oper tac = FREE")
    case False
    with Cons show ?thesis by simp
  next
    case True
    obtain res s1 where f: "bh_vcache_free_base w (base (operands st (out tac))) s = (res, s1)"
      by (cases "bh_vcache_free_base w (base (operands st (out tac))) s") auto
    note k = free_base_eq [OF f]
    show ?thesis
    proof (cases "res = BH_SUCCESS")
      case False
      with Cons.prems True f have "s' = s1" by simp
      with k show ?thesis by simp
    next
      case ok: True
      with Cons.prems True f have "fuse_deallocate w st tacs s1 = (r, s')" by simp
      from Cons.IH [OF this] k show ?thesis by simp
    qed
  qed
qed

lemma sij_array_op_footprint:
  assumes "sij_array_op cfg w st block tac s = (r, s')"
  shows "footprint s s'"
proof -
  let ?symb = "snd (symbolize w block)"
  let ?c = "if jit_enabled cfg \<and> \<not> symbol_ready s ?symb
            then compile_block cfg w ?symb [] s else (True, s)"
  obtain cres s1 where c: "?c = (cres, s1)" by (cases ?c) auto
  have f1: "footprint s s1 \<and> ready s1 = ready s"
  proof (cases "jit_enabled cfg \<and> \<not> symbol_ready s ?symb")
    case True
    with c have "compile_block cfg w ?symb [] s = (cres, s1)" by simp
    from compile_block_eq [OF this] True show ?thesis
      by (auto simp add: footprint_def symbol_ready_def)
  next
    case False
    with c show ?thesis by (auto simp add: footprint_def)
  qed
  let ?l = "if \<not> symbol_ready s1 ?symb then storage_load w ?symb s1 else (True, s1)"
  obtain loaded s2 where l: "?l = (loaded, s2)" by (cases ?l) auto
  have f2: "ready s1 \<subseteq> ready s2 \<and> compiled s2 = compiled s1"
  proof (cases "symbol_ready s1 ?symb")
    case True
    with l show ?thesis by simp
  next
    case False
    with l have "storage_load w ?symb s1 = (loaded, s2)" by simp
    from storage_load_eq [OF this] show ?thesis by simp
  qed
  obtain res s3 where m: "bh_vcache_malloc_base w (base (operands st (out tac))) s2 = (res, s3)"
    by (cases "bh_vcache_malloc_base w (base (operands st (out tac))) s2") auto
  note f3 = malloc_base_eq [OF m]
  obtain r4 s4 where la: "launch ?symb s3 = (r4, s4)" by (cases "launch ?symb s3") auto
  note f4 = launch_eq [OF la]
  from assms c l m la have "s' = s1 \<or> s' = s2 \<or> s' = s3 \<or> s' = s4"
    by (auto simp add: sij_array_op_def Let_def split: if_splits)
  with f1 f2 f3 f4 show ?thesis by (auto simp add: footprint_def)
qed

lemma sij_mode_footprint:
  assumes "sij_mode cfg w st block s = (r, s')"
  shows "footprint s s'"
proof (cases block)
  case Nil
  with assms show ?thesis by (simp add: sij_mode_def footprint_def)
next
  case (Cons tac rest)
  show ?thesis
  proof (cases "op tac \<in> ARRAY_OPS")
    case True
    with assms Cons have "sij_array_op cfg w st block tac s = (r, s')"
      by (auto simp add: sij_mode_def ARRAY_OPS_def)
    then show ?thesis by (rule sij_array_op_footprint)
  next
    case False
    then have "ready s' = ready s \<and> compiled s' = compiled s"
      using assms Cons
      by (auto simp add: sij_mode_def ARRAY_OPS_def Let_def
          split: OPERATION.splits OPERATOR.splits option.splits prod.splits if_splits
          dest: free_base_eq)
    then show ?thesis by (simp add: footprint_def)
  qed
qed

lemma fuse_mode_footprint:
  assumes "fuse_mode cfg w st m block s = (r, s')"
  shows "footprint s s'"
proof (cases "fst (symbolize w block)")
  case False
  with assms show ?thesis by (simp add: fuse_mode_def Let_def footprint_def)
next
  case ok: True
  let ?symb = "snd (symbolize w block)"
  let ?ranges = "fuse_ranges w st block"
  let ?c = "if jit_enabled cfg \<and> mask_and m ARRAY_OPS \<and> \<not> symbol_ready s ?symb
            then compile_block cfg w ?symb ?ranges s else (True, s)"
  obtain cres s1 where c: "?c = (cres, s1)" by (cases ?c) auto
  have f1: "footprint s s1 \<and> ready s1 = ready s"
  proof (cases "jit_enabled cfg \<and> mask_and m ARRAY_OPS \<and> \<not> symbol_ready s ?symb")
    case True
    with c have "compile_block cfg w ?symb ?ranges s = (cres, s1)" by simp
    from compile_block_eq [OF this] True show ?thesis
      by (auto simp add: footprint_def symbol_ready_def)
  next
    case False
    with c show ?thesis by (auto simp add: footprint_def)
  qed
  let ?l = "if mask_and m ARRAY_OPS \<and> \<not> symbol_ready s1 ?symb
            then storage_load w ?symb s1 else (True, s1)"
  obtain loaded s2 where l: "?l = (loaded, s2)" by (cases ?l) auto
  have f2: "ready s1 \<subseteq> ready s2 \<and> compiled s2 = compiled s1"
  proof (cases "mask_and m ARRAY_OPS \<and> \<not> symbol_ready s1 ?symb")
    case False
    with l show ?thesis by auto
  next
    case True
    with l have "storage_load w ?symb s1 = (loaded, s2)" by simp
    from storage_load_eq [OF this] show ?thesis by simp
  qed
  obtain res s3 where a: "fuse_allocate w st block s2 = (res, s3)"
    by (cases "fuse_allocate w st block s2") auto
  note f3 = fuse_allocate_eq [OF a]
  obtain r4 s4 where la: "launch ?symb s3 = (r4, s4)" by (cases "launch ?symb s3") auto
  note f4 = launch_eq [OF la]
  obtain res1 s5 where d: "fuse_deallocate w st block s4 = (res1, s5)"
    by (cases "fuse_deallocate w st block s4") auto
  note f5 = fuse_deallocate_eq [OF d]
  from assms ok c l a la d have "s' = s1 \<or> s' = s2 \<or> s' = s3 \<or> s' = s4 \<or> s' = s5"
    by (auto simp add: fuse_mode_def Let_def split: if_splits outcome.splits)
  with f1 f2 f3 f4 f5 show ?thesis by (auto simp add: footprint_def)
qed

lemma invoke_footprint: "footprint s (snd (invoke cfg w i s))"
proof (cases i)
  case (SIJ st block)
  obtain r s' where "sij_mode cfg w st block s = (r, s')"
    by (cases "sij_mode cfg w st block s") auto
  from sij_mode_footprint [OF this] this SIJ show ?thesis by simp
next
  case (FUSE st m block)
  obtain r s' where "fuse_mode cfg w st m block s = (r, s')"
    by (cases "fuse_mode cfg w st m block s") auto
  from fuse_mode_footprint [OF this] this FUSE show ?thesis by simp
qed

lemma footprint_count:
  assumes "footprint s s'" and "symb \<in> ready s"
  shows "symb \<in> ready s' \<and> count_list (compiled s') symb = count_list (compiled s) symb"
  using assms by (auto simp add: footprint_def)

text \<open>
  Claim C3 as stated, that the compiler runs at most once for every fingerprint, fails
  when the first compilation fails: the next invocation for the same fingerprint runs
  the compiler again.
\<close>

theorem compile_twice_after_failure:
  "\<not> count_list (compiled (invoke_all cfg0 (world0\<lparr>compile := (\<lambda>n symb. n \<noteq> 0)\<rparr>)
       [SIJ st0 [mk_tac MAP (ARITH 0) 1 0 0], SIJ st0 [mk_tac MAP (ARITH 0) 1 0 0]] engine0))
       ''m'' \<le> 1"
  by (simp add: engine_eval)

lemma failed_compile_step:
  assumes "jit_enabled cfg" and "reaches_jit w i symb" and "symb \<notin> ready s"
    and "\<not> compile w (ticks s) symb"
  shows "fst (invoke cfg w i s) = Returns BH_ERROR
       \<and> symbols (snd (invoke cfg w i s)) = symbols s
       \<and> ready (snd (invoke cfg w i s)) = ready s
       \<and> compiled (snd (invoke cfg w i s)) = compiled s @ [symb]"
proof (cases i)
  case (SIJ st block)
  with assms(2) obtain tac rest where b: "block = tac # rest" and a: "op tac \<in> ARRAY_OPS"
    and sy: "snd (symbolize w block) = symb"
    by (auto split: list.splits)
  from a b have "sij_mode cfg w st block s = sij_array_op cfg w st block tac s"
    by (auto simp add: sij_mode_def ARRAY_OPS_def)
  with assms(1,3,4) sy SIJ show ?thesis
    by (simp add: sij_array_op_def compile_block_def symbol_ready_def Let_def)
next
  case (FUSE st m block)
  with assms(2) have "fst (symbolize w block)" and "snd (symbolize w block) = symb"
    and "mask_and m ARRAY_OPS"
    by auto
  with assms(1,3,4) FUSE show ?thesis
    by (simp add: fuse_mode_def compile_block_def symbol_ready_def Let_def)
qed

lemma compile_attempted:
  assumes "jit_enabled cfg" and "reaches_jit w i symb" and "symb \<notin> ready s"
  shows "compiled (snd (invoke cfg w i s)) = compiled s @ [symb]"
proof (cases i)
  case (SIJ st block)
  with assms(2) obtain tac rest where b: "block = tac # rest" and a: "op tac \<in> ARRAY_OPS"
    and sy: "snd (symbolize w block) = symb"
    by (auto split: list.splits)
  from a b have e: "sij_mode cfg w st block s = sij_array_op cfg w st block tac s"
    by (auto simp add: sij_mode_def ARRAY_OPS_def)
  let ?c = "compile_block cfg w symb [] s"
  obtain cres s1 where c: "?c = (cres, s1)" by (cases ?c) auto
  note k1 = compile_block_eq [OF c]
  let ?l = "if \<not> symbol_ready s1 symb then storage_load w symb s1 else (True, s1)"
  obtain loaded s2 where l: "?l = (loaded, s2)" by (cases ?l) auto
  have k2: "compiled s2 = compiled s1"
  proof (cases "symbol_ready s1 symb")
    case True
    with l show ?thesis by simp
  next
    case False
    with l have "storage_load w symb s1 = (loaded, s2)" by simp
    from storage_load_eq [OF this] show ?thesis by simp
  qed
  obtain res s3 where m: "bh_vcache_malloc_base w (base (operands st (out tac))) s2 = (res, s3)"
    by (cases "bh_vcache_malloc_base w (base (operands st (out tac))) s2") auto
  note k3 = malloc_base_eq [OF m]
  obtain r4 s4 where la: "launch symb s3 = (r4, s4)" by (cases "launch symb s3") auto
  note k4 = launch_eq [OF la]
  from assms(1,3) sy c l m la
  have "snd (sij_array_op cfg w st block tac s) \<in> {s1, s2, s3, s4}"
    by (auto simp add: sij_array_op_def symbol_ready_def Let_def split: if_splits)
  with k1 k2 k3 k4 e SIJ show ?thesis by auto
next
  case (FUSE st m block)
  with assms(2) have ok: "fst (symbolize w block)" and sy: "snd (symbolize w block) = symb"
    and am: "mask_and m ARRAY_OPS"
    by auto
  let ?c = "compile_block cfg w symb (fuse_ranges w st block) s"
  obtain cres s1 where c: "?c = (cres, s1)" by (cases ?c) auto
  note k1 = compile_block_eq [OF c]
  let ?l = "if mask_and m ARRAY_OPS \<and> \<not> symbol_ready s1 symb
            then storage_load w symb s1 else (True, s1)"
  obtain loaded s2 where l: "?l = (loaded, s2)" by (cases ?l) auto
  have k2: "compiled s2 = compiled s1"
  proof (cases "mask_and m ARRAY_OPS \<and> \<not> symbol_ready s1 symb")
    case False
    with l show ?thesis by auto
  next
    case True
    with l have "storage_load w symb s1 = (loaded, s2)" by simp
    from storage_load_eq [OF this] show ?thesis by simp
  qed
  obtain res s3 where a: "fuse_allocate w st block s2 = (res, s3)"
    by (cases "fuse_allocate w st block s2") auto
  note k3 = fuse_allocate_eq [OF a]
  obtain r4 s4 where la: "launch symb s3 = (r4, s4)" by (cases "launch symb s3") auto
  note k4 = launch_eq [OF la]
  obtain res1 s5 where d: "fuse_deallocate w st block s4 = (res1, s5)"
    by (cases "fuse_deallocate w st block s4") auto
  note k5 = fuse_deallocate_eq [OF d]
  from assms(1,3) ok sy am c l a la d
  have "snd (fuse_mode cfg w st m block s) \<in> {s1, s2, s3, s4, s5}"
    by (auto simp add: fuse_mode_def symbol_ready_def Let_def split: if_splits outcome.splits)
  with k1 k2 k3 k4 k5 FUSE show ?thesis by auto
qed

lemma ready_not_recompiled:
  "symb \<in> ready s \<Longrightarrow>
     count_list (compiled (invoke_all cfg w invs s)) symb = count_list (compiled s) symb"
proof (induction invs arbitrary: s)
  case Nil
  then show ?case by simp
next
  case (Cons i invs)
  from footprint_count [OF invoke_footprint Cons.prems, of cfg w i]
  have k: "symb \<in> ready (snd (invoke cfg w i s))
           \<and> count_list (compiled (snd (invoke cfg w i s))) symb = count_list (compiled s) symb" .
  then have "symb \<in> ready (snd (invoke cfg w i s))" by simp
  from Cons.IH [OF this] k show ?case by simp
qed

text \<open>
  Claim C3, amended. Once a fingerprint is ready in Storage (compiled and its symbol
  loaded), no later \<open>sij_mode\<close> or \<open>fuse_mode\<close> invocation runs the compiler for it
  again: over any run of helper invocations the number of compiler runs for it stays
  what it was. As long as it is not ready, every invocation that reaches the JIT step
  for it with JIT enabled runs the compiler for it, once.
\<close>

theorem compiled_until_ready:
  "(symb \<in> ready s \<longrightarrow>
      count_list (compiled (invoke_all cfg w invs s)) symb = count_list (compiled s) symb)
   \<and> (jit_enabled cfg \<and> reaches_jit w i symb \<and> symb \<notin> ready s \<longrightarrow>
      compiled (snd (invoke cfg w i s)) = compiled s @ [symb])"
  using ready_not_recompiled [of symb s cfg w invs] compile_attempted [of cfg w i symb s]
  by blast

theorem compiled_until_ready_witness:
  "''m'' \<in> ready (snd (sij_mode cfg0 world0 st0 [mk_tac MAP (ARITH 0) 1 0 0] engine0))
   \<and> count_list (compiled (snd (sij_mode cfg0 world0 st0 [mk_tac MAP (ARITH 0) 1 0 0] engine0)))
        ''m'' = 1
   \<and> count_list (compiled (invoke_all cfg0 world0
        [SIJ st0 [mk_tac MAP (ARITH 0) 1 0 0], FUSE st0 {MAP} [mk_tac MAP (ARITH 0) 1 0 0]]
        (snd (sij_mode cfg0 world0 st0 [mk_tac MAP (ARITH 0) 1 0 0] engine0)))) ''m''
       = count_list (compiled (snd (sij_mode cfg0 world0 st0 [mk_tac MAP (ARITH 0) 1 0 0]
           engine0))) ''m''
   \<and> ''m'' \<notin> ready (snd (invoke cfg0 (world0\<lparr>compile := (\<lambda>n symb. False)\<rparr>)
        (SIJ st0 [mk_tac MAP (ARITH 0) 1 0 0]) engine0))
   \<and> compiled (snd (invoke cfg0 (world0\<lparr>compile := (\<lambda>n symb. False)\<rparr>)
        (FUSE st0 {MAP} [mk_tac MAP (ARITH 0) 1 0 0])
        (snd (invoke cfg0 (world0\<lparr>compile := (\<lambda>n symb. False)\<rparr>)
           (SIJ st0 [mk_tac MAP (ARITH 0) 1 0 0]) engine0))))
       = compiled (snd (invoke cfg0 (world0\<lparr>compile := (\<lambda>n symb. False)\<rparr>)
           (SIJ st0 [mk_tac MAP (ARITH 0) 1 0 0]) engine0)) @ [''m'']"
proof -
  let ?w = "world0\<lparr>compile := (\<lambda>n symb. False)\<rparr>"
  let ?s1 = "snd (sij_mode cfg0 world0 st0 [mk_tac MAP (ARITH 0) 1 0 0] engine0)"
  let ?s2 = "snd (invoke cfg0 ?w (SIJ st0 [mk_tac MAP (ARITH 0) 1 0 0]) engine0)"
  have r: "''m'' \<in> ready ?s1" by (simp add: engine_eval)
  have c: "count_list (compiled ?s1) ''m'' = 1" by (simp add: engine_eval)
  have j: "jit_enabled cfg0" by (simp add: cfg0_def)
  have q: "reaches_jit ?w (FUSE st0 {MAP} [mk_tac MAP (ARITH 0) 1 0 0]) ''m''"
    by (simp add: engine_eval)
  have n: "''m'' \<notin> ready ?s2" by (simp add: engine_eval)
  from compiled_until_ready [of "''m''" ?s1 cfg0 world0
      "[SIJ st0 [mk_tac MAP (ARITH 0) 1 0 0], FUSE st0 {MAP} [mk_tac MAP (ARITH 0) 1 0 0]]"] r
  have a: "count_list (compiled (invoke_all cfg0 world0
        [SIJ st0 [mk_tac MAP (ARITH 0) 1 0 0], FUSE st0 {MAP} [mk_tac MAP (ARITH 0) 1 0 0]] ?s1))
        ''m'' = count_list (compiled ?s1) ''m''"
    by blast
  from compiled_until_ready [of "''m''" ?s2 cfg0 ?w _
      "FUSE st0 {MAP} [mk_tac MAP (ARITH 0) 1 0 0]"] j q n
  have b: "compiled (snd (invoke cfg0 ?w (FUSE st0 {MAP} [mk_tac MAP (ARITH 0) 1 0 0]) ?s2))
             = compiled ?s2 @ [''m'']"
    by blast
  from r c a n b show ?thesis by (simp only: simp_thms)
qed

text \<open>
  Claim C7. When the compiler fails for the fingerprint of a block that reaches the JIT
  step, the helper (either mode) returns \<open>BH_ERROR\<close>, \<^verbatim>\<open>add_symbol\<close> is not called and
  the fingerprint is still not ready in Storage, so the next invocation for a block
  with the same fingerprint runs the compiler for it again.
\<close>

theorem failed_compile_not_stored:
  assumes "jit_enabled cfg" and "reaches_jit w i symb" and "symb \<notin> ready s"
    and "\<not> compile w (ticks s) symb"
    and "s' = snd (invoke cfg w i s)"
    and "reaches_jit w i2 symb"
  shows "fst (invoke cfg w i s) = Returns BH_ERROR
       \<and> symbols s' = symbols s
       \<and> \<not> symbol_ready s' symb
       \<and> compiled s' = compiled s @ [symb]
       \<and> compiled (snd (invoke cfg w i2 s')) = compiled s @ [symb, symb]"
proof -
  from failed_compile_step [OF assms(1-4)] assms(5)
  have k: "fst (invoke cfg w i s) = Returns BH_ERROR \<and> symbols s' = symbols s
           \<and> ready s' = ready s \<and> compiled s' = compiled s @ [symb]"
    by simp
  with assms(3) have n: "symb \<notin> ready s'" by simp
  from compile_attempted [OF assms(1) assms(6) n] k
  show ?thesis using n by (simp add: symbol_ready_def)
qed

theorem failed_compile_not_stored_witness:
  "fst (invoke cfg0 (world0\<lparr>compile := (\<lambda>n symb. n \<noteq> 0)\<rparr>)
          (SIJ st0 [mk_tac MAP (ARITH 0) 1 0 0]) engine0) = Returns BH_ERROR
   \<and> symbols (snd (invoke cfg0 (world0\<lparr>compile := (\<lambda>n symb. n \<noteq> 0)\<rparr>)
          (SIJ st0 [mk_tac MAP (ARITH 0) 1 0 0]) engine0)) = []
   \<and> compiled (snd (invoke cfg0 (world0\<lparr>compile := (\<lambda>n symb. n \<noteq> 0)\<rparr>)
          (FUSE st0 {MAP} [mk_tac MAP (ARITH 0) 1 0 0])
          (snd (invoke cfg0 (world0\<lparr>compile := (\<lambda>n symb. n \<noteq> 0)\<rparr>)
             (SIJ st0 [mk_tac MAP (ARITH 0) 1 0 0]) engine0)))) = [''m'', ''m'']"
proof -
  let ?w = "world0\<lparr>compile := (\<lambda>n symb. n \<noteq> 0)\<rparr>"
  have a: "jit_enabled cfg0" by (simp add: cfg0_def)
  have b: "reaches_jit ?w (SIJ st0 [mk_tac MAP (ARITH 0) 1 0 0]) ''m''"
    by (simp add: engine_eval)
  have c: "''m'' \<notin> ready engine0" by (simp add: engine0_def)
  have d: "\<not> compile ?w (ticks engine0) ''m''" by (simp add: engine0_def world0_def)
  have e: "reaches_jit ?w (FUSE st0 {MAP} [mk_tac MAP (ARITH 0) 1 0 0]) ''m''"
    by (simp add: engine_eval)
  from failed_compile_not_stored [OF a b c d refl e]
  show ?thesis by (simp add: engine0_def)
qed


section \<open>The CPU engine: buffers in fuse\_mode\<close>

lemma compile_block_logs:
  "compile_block cfg w symb r s = (c, s') \<Longrightarrow> malloced s' = malloced s \<and> freed s' = freed s"
  by (auto simp add: compile_block_def Let_def split: if_splits)

lemma storage_load_logs:
  "storage_load w symb s = (l, s') \<Longrightarrow> malloced s' = malloced s \<and> freed s' = freed s"
  by (auto simp add: storage_load_def split: if_splits)

lemma launch_logs:
  "launch symb s = (r, s') \<Longrightarrow> malloced s' = malloced s \<and> freed s' = freed s"
  by (auto simp add: launch_def split: if_splits)

lemma malloc_base_logs:
  "bh_vcache_malloc_base w b s = (r, s') \<Longrightarrow> malloced s' = malloced s @ [b] \<and> freed s' = freed s"
  by (auto simp add: bh_vcache_malloc_base_def Let_def split: if_splits)

lemma free_base_logs:
  "bh_vcache_free_base w b s = (r, s') \<Longrightarrow> freed s' = freed s @ [b] \<and> malloced s' = malloced s"
  by (auto simp add: bh_vcache_free_base_def Let_def split: if_splits)

lemma fuse_allocate_logs:
  "fuse_allocate w st block s = (BH_SUCCESS, s') \<Longrightarrow>
     malloced s' = malloced s @ map (\<lambda>t. base (operands st (out t)))
                                  (filter (\<lambda>t. op t \<in> ARRAY_OPS) block)
     \<and> freed s' = freed s"
proof (induction block arbitrary: s)
  case Nil
  then show ?case by simp
next
  case (Cons tac tacs)
  show ?case
  proof (cases "op tac \<in> ARRAY_OPS")
    case False
    with Cons show ?thesis by simp
  next
    case True
    let ?operand = "operands st (out tac)"
    let ?s1 = "if layout ?operand = SCALAR \<and> \<not> data_set (bases s (base ?operand))
               then s\<lparr>bases := (bases s)(base ?operand := (bases s (base ?operand))\<lparr>nelem := 1\<rparr>)\<rparr>
               else s"
    obtain res s2 where m: "bh_vcache_malloc_base w (base ?operand) ?s1 = (res, s2)"
      by (cases "bh_vcache_malloc_base w (base ?operand) ?s1") auto
    from malloc_base_logs [OF m]
    have k: "malloced s2 = malloced s @ [base ?operand] \<and> freed s2 = freed s"
      by (simp split: if_splits)
    have ok: "res = BH_SUCCESS"
    proof (rule ccontr)
      assume "res \<noteq> BH_SUCCESS"
      with Cons.prems True m show False by (simp add: Let_def)
    qed
    with Cons.prems True m have "fuse_allocate w st tacs s2 = (BH_SUCCESS, s')"
      by (simp add: Let_def)
    from Cons.IH [OF this] k True show ?thesis by simp
  qed
qed

lemma fuse_deallocate_logs:
  "fuse_deallocate w st block s = (BH_SUCCESS, s') \<Longrightarrow>
     freed s' = freed s @ map (\<lambda>t. base (operands st (out t)))
                            (filter (\<lambda>t. oper t = FREE) block)
     \<and> malloced s' = malloced s"
proof (induction block arbitrary: s)
  case Nil
  then show ?case by simp
next
  case (Cons tac tacs)
  show ?case
  proof (cases "oper tac = FREE")
    case False
    with Cons show ?thesis by simp
  next
    case True
    obtain res s1 where f: "bh_vcache_free_base w (base (operands st (out tac))) s = (res, s1)"
      by (cases "bh_vcache_free_base w (base (operands st (out tac))) s") auto
    note k = free_base_logs [OF f]
    have ok: "res = BH_SUCCESS"
    proof (rule ccontr)
      assume "res \<noteq> BH_SUCCESS"
      with Cons.prems True f show False by simp
    qed
    with Cons.prems True f have "fuse_deallocate w st tacs s1 = (BH_SUCCESS, s')" by simp
    from Cons.IH [OF this] k True show ?thesis by simp
  qed
qed

text \<open>
  Whenever \<open>fuse_mode\<close> returns \<open>BH_SUCCESS\<close> it has asked the victim cache for a
  buffer for the output operand of every array-operation TAC of the block, in order,
  and has released the base of every TAC whose operator is \<open>FREE\<close>: neither loop looks
  at what the scalar-replacement pass found.
\<close>

lemma fuse_mode_allocates_and_frees:
  assumes "fuse_mode cfg w st m block s = (Returns BH_SUCCESS, s')"
  shows "malloced s' = malloced s @ map (\<lambda>t. base (operands st (out t)))
                                      (filter (\<lambda>t. op t \<in> ARRAY_OPS) block)
       \<and> freed s' = freed s @ map (\<lambda>t. base (operands st (out t)))
                                (filter (\<lambda>t. oper t = FREE) block)"
proof -
  have ok: "fst (symbolize w block)"
  proof (rule ccontr)
    assume "\<not> fst (symbolize w block)"
    with assms show False by (simp add: fuse_mode_def Let_def)
  qed
  let ?symb = "snd (symbolize w block)"
  let ?ranges = "fuse_ranges w st block"
  let ?c = "if jit_enabled cfg \<and> mask_and m ARRAY_OPS \<and> \<not> symbol_ready s ?symb
            then compile_block cfg w ?symb ?ranges s else (True, s)"
  obtain cres s1 where c: "?c = (cres, s1)" by (cases ?c) auto
  have k1: "malloced s1 = malloced s \<and> freed s1 = freed s"
  proof (cases "jit_enabled cfg \<and> mask_and m ARRAY_OPS \<and> \<not> symbol_ready s ?symb")
    case True
    with c have "compile_block cfg w ?symb ?ranges s = (cres, s1)" by simp
    from compile_block_logs [OF this] show ?thesis .
  next
    case False
    with c show ?thesis by auto
  qed
  let ?l = "if mask_and m ARRAY_OPS \<and> \<not> symbol_ready s1 ?symb
            then storage_load w ?symb s1 else (True, s1)"
  obtain loaded s2 where l: "?l = (loaded, s2)" by (cases ?l) auto
  have k2: "malloced s2 = malloced s1 \<and> freed s2 = freed s1"
  proof (cases "mask_and m ARRAY_OPS \<and> \<not> symbol_ready s1 ?symb")
    case False
    with l show ?thesis by auto
  next
    case True
    with l have "storage_load w ?symb s1 = (loaded, s2)" by simp
    from storage_load_logs [OF this] show ?thesis .
  qed
  obtain res s3 where a: "fuse_allocate w st block s2 = (res, s3)"
    by (cases "fuse_allocate w st block s2") auto
  obtain r4 s4 where la: "launch ?symb s3 = (r4, s4)" by (cases "launch ?symb s3") auto
  note k4 = launch_logs [OF la]
  obtain res1 s5 where d: "fuse_deallocate w st block s4 = (res1, s5)"
    by (cases "fuse_deallocate w st block s4") auto
  from assms ok c l a la d have e: "res = BH_SUCCESS \<and> res1 = BH_SUCCESS \<and> s' = s5"
    by (auto simp add: fuse_mode_def Let_def split: if_splits outcome.splits)
  with a have "fuse_allocate w st block s2 = (BH_SUCCESS, s3)" by simp
  note k3 = fuse_allocate_logs [OF this]
  from e d have "fuse_deallocate w st block s4 = (BH_SUCCESS, s5)" by simp
  note k5 = fuse_deallocate_logs [OF this]
  from k1 k2 k3 k4 k5 e show ?thesis by simp
qed

section \<open>The fuser: when blocks are merged\<close>

lemmas fuser_eval =
  api0_def view0_def add0_def loop0_def instr_block_def fuser_serial_step_def
  data_parallel_compatible_def data_parallel_compatible_instr_def output_fits_def
  c_rem_def Let_def

lemma output_fits_iff:
  "output_fits api b a =
     (\<forall>i < bh_noperands api (opcode a).
        bh_view_disjoint api (operand b 0) (operand a i)
        \<or> bh_view_aligned api (operand b 0) (operand a i))"
  by (auto simp add: output_fits_def list_all_iff)

lemma compatible_instr_iff:
  "data_parallel_compatible_instr api a b =
     (bh_opcode_is_system api (opcode a) \<or> bh_opcode_is_system api (opcode b)
      \<or> (output_fits api b a \<and> output_fits api a b))"
  by (auto simp add: data_parallel_compatible_instr_def)

lemma step_continue_compatible:
  "fuser_serial_step api nw cur it = Continue m \<Longrightarrow> data_parallel_compatible api cur it"
  by (simp add: fuser_serial_step_def Let_def split: if_splits)

text \<open>
  Claim C5. Whenever the loop of \<open>fuser_serial\<close> merges the current block with the
  next one, for every instruction \<open>a\<close> of the first and \<open>b\<close> of the second, neither a
  system instruction, the output of \<open>b\<close> is disjoint from or aligned with every operand
  of \<open>a\<close>, and the output of \<open>a\<close> is disjoint from or aligned with every operand of \<open>b\<close>.
\<close>

theorem merged_blocks_data_parallel:
  assumes "fuser_serial_step api nw cur it = Continue m"
    and "a \<in> set (getAllInstr api cur)" and "b \<in> set (getAllInstr api it)"
    and "\<not> bh_opcode_is_system api (opcode a)" and "\<not> bh_opcode_is_system api (opcode b)"
  shows "(\<forall>i < bh_noperands api (opcode a).
            bh_view_disjoint api (operand b 0) (operand a i)
            \<or> bh_view_aligned api (operand b 0) (operand a i))
       \<and> (\<forall>j < bh_noperands api (opcode b).
            bh_view_disjoint api (operand a 0) (operand b j)
            \<or> bh_view_aligned api (operand a 0) (operand b j))"
proof -
  from assms(1) have "data_parallel_compatible api cur it" by (rule step_continue_compatible)
  with assms(2,3) have "data_parallel_compatible_instr api a b"
    by (simp add: data_parallel_compatible_def list_all_iff)
  with assms(4,5) have "output_fits api b a \<and> output_fits api a b"
    by (simp add: compatible_instr_iff)
  then show ?thesis by (simp add: output_fits_iff)
qed

theorem merged_blocks_data_parallel_witness:
  "fuser_serial_step api0 {}
      (loop0 4 False [] [add0 (view0 1 0) (view0 2 0) (view0 3 0)])
      (loop0 4 False [] [add0 (view0 4 0) (view0 1 0) (view0 2 0)])
     = Continue (merge api0 (loop0 4 False [] [add0 (view0 1 0) (view0 2 0) (view0 3 0)])
                            (loop0 4 False [] [add0 (view0 4 0) (view0 1 0) (view0 2 0)]))
   \<and> (bh_view_disjoint api0 (operand (add0 (view0 1 0) (view0 2 0) (view0 3 0)) 0)
          (operand (add0 (view0 4 0) (view0 1 0) (view0 2 0)) 1)
       \<or> bh_view_aligned api0 (operand (add0 (view0 1 0) (view0 2 0) (view0 3 0)) 0)
          (operand (add0 (view0 4 0) (view0 1 0) (view0 2 0)) 1))"
proof -
  let ?a = "add0 (view0 1 0) (view0 2 0) (view0 3 0)"
  let ?b = "add0 (view0 4 0) (view0 1 0) (view0 2 0)"
  have s: "fuser_serial_step api0 {} (loop0 4 False [] [?a]) (loop0 4 False [] [?b])
             = Continue (merge api0 (loop0 4 False [] [?a]) (loop0 4 False [] [?b]))"
    by (simp add: fuser_eval eval_nat_numeral)
  have ia: "?a \<in> set (getAllInstr api0 (loop0 4 False [] [?a]))"
    by (simp add: api0_def loop0_def instr_block_def)
  have ib: "?b \<in> set (getAllInstr api0 (loop0 4 False [] [?b]))"
    by (simp add: api0_def loop0_def instr_block_def)
  have na: "\<not> bh_opcode_is_system api0 (opcode ?a)" by (simp add: api0_def add0_def)
  have nb: "\<not> bh_opcode_is_system api0 (opcode ?b)" by (simp add: api0_def add0_def)
  have one: "1 < bh_noperands api0 (opcode ?b)" by (simp add: api0_def)
  from merged_blocks_data_parallel [OF s ia ib na nb] one
  have "bh_view_disjoint api0 (operand ?a 0) (operand ?b 1)
        \<or> bh_view_aligned api0 (operand ?a 0) (operand ?b 1)"
    by blast
  with s show ?thesis by (simp only: simp_thms)
qed

lemma c_rem_pos: "0 < a \<Longrightarrow> 0 < b \<Longrightarrow> (c_rem a b = 0) = (b dvd a)"
  by (simp add: c_rem_def dvd_eq_mod_eq_0)

text \<open>
  Claim C8 as stated, that two adjacent non-instruction blocks of equal rank are merged
  exactly when the sizes allow it, fails in the direction from the sizes to the merge:
  two blocks of equal rank and equal size are not merged when an instruction of the
  second reads a view that overlaps the output of the first without being aligned with
  it, nor when the current block has a sweep.
\<close>

theorem fuser_serial_blocked_merge:
  "\<not> isInstr api0 (loop0 4 False [] [add0 (view0 1 0) (view0 2 0) (view0 3 0)])
   \<and> \<not> isInstr api0 (loop0 4 False [] [add0 (view0 4 0) (view0 1 1) (view0 2 0)])
   \<and> rank (loop0 4 False [] [add0 (view0 1 0) (view0 2 0) (view0 3 0)])
       = rank (loop0 4 False [] [add0 (view0 4 0) (view0 1 1) (view0 2 0)])
   \<and> size_b (loop0 4 False [] [add0 (view0 1 0) (view0 2 0) (view0 3 0)])
       = size_b (loop0 4 False [] [add0 (view0 4 0) (view0 1 1) (view0 2 0)])
   \<and> fuser_serial_step api0 {}
        (loop0 4 False [] [add0 (view0 1 0) (view0 2 0) (view0 3 0)])
        (loop0 4 False [] [add0 (view0 4 0) (view0 1 1) (view0 2 0)]) = Stop
   \<and> fuser_serial_step api0 {}
        (loop0 4 False [add0 (view0 1 0) (view0 2 0) (view0 3 0)]
           [add0 (view0 1 0) (view0 2 0) (view0 3 0)])
        (loop0 4 False [] [add0 (view0 4 0) (view0 5 0) (view0 2 0)]) = Stop"
  by (simp add: fuser_eval eval_nat_numeral)

text \<open>
  Claim C8, amended. For a current block and a next non-instruction block of equal
  rank and positive sizes, with \<^verbatim>\<open>create_nested_block\<close> returning a block of the size
  it is asked for (what the source asserts), \<open>fuser_serial\<close> merges the two exactly
  when they are data-parallel compatible, the current block has no sweeps, and either
  the sizes are equal, or one block is reshapable and the size of the other divides
  its size. With equal sizes the merged block is \<^verbatim>\<open>merge(cur, it)\<close>; otherwise it is
  \<^verbatim>\<open>create_nested_block\<close> of the instructions of both blocks, those of the current
  block first, at the smaller of the two sizes.
\<close>

theorem fuser_serial_merge_condition:
  assumes "\<not> isInstr api it" and "rank cur = rank it"
    and "0 < size_b cur" and "0 < size_b it"
    and "\<forall>is r s. size_b (create_nested_block api is r s nw) = s"
  shows "((\<exists>m. fuser_serial_step api nw cur it = Continue m) \<longleftrightarrow>
            (data_parallel_compatible api cur it \<and> sweeps cur = [] \<and>
              (size_b cur = size_b it
               \<or> (reshapable it \<and> size_b cur dvd size_b it)
               \<or> (reshapable cur \<and> size_b it dvd size_b cur))))
       \<and> (\<forall>m. fuser_serial_step api nw cur it = Continue m \<longrightarrow>
            (if size_b cur = size_b it then m = merge api cur it
             else m = create_nested_block api (getAllInstr api cur @ getAllInstr api it)
                        (rank cur) (min (size_b cur) (size_b it)) nw
                  \<and> size_b m = min (size_b cur) (size_b it)))"
proof -
  have r1: "(c_rem (size_b it) (size_b cur) = 0) = (size_b cur dvd size_b it)"
    using assms(3,4) by (simp add: c_rem_pos)
  have r2: "(c_rem (size_b cur) (size_b it) = 0) = (size_b it dvd size_b cur)"
    using assms(3,4) by (simp add: c_rem_pos)
  have le1: "size_b cur dvd size_b it \<Longrightarrow> min (size_b cur) (size_b it) = size_b cur"
    using assms(4) by (simp add: zdvd_imp_le)
  have le2: "size_b it dvd size_b cur \<Longrightarrow> min (size_b cur) (size_b it) = size_b it"
    using assms(3) by (simp add: zdvd_imp_le)
  have nz: "size_b cur \<noteq> 0" "size_b it \<noteq> 0" using assms(3,4) by simp_all
  show ?thesis
  proof (cases "data_parallel_compatible api cur it \<and> sweeps cur = []")
    case False
    with assms(1) show ?thesis by (auto simp add: fuser_serial_step_def)
  next
    case ok: True
    show ?thesis
    proof (cases "size_b cur = size_b it")
      case True
      with ok assms(1,2) show ?thesis by (simp add: fuser_serial_step_def)
    next
      case ne: False
      show ?thesis
      proof (cases "reshapable it \<and> size_b cur dvd size_b it")
        case True
        with ok ne assms(1,2,5) nz r1 le1 show ?thesis
          by (simp add: fuser_serial_step_def Let_def)
      next
        case n2: False
        show ?thesis
        proof (cases "reshapable cur \<and> size_b it dvd size_b cur")
          case True
          with ok ne n2 assms(1,2,5) nz r1 r2 le2 show ?thesis
            by (auto simp add: fuser_serial_step_def Let_def)
        next
          case False
          with ok ne n2 assms(1,2) nz r1 r2 show ?thesis
            by (auto simp add: fuser_serial_step_def Let_def)
        qed
      qed
    qed
  qed
qed

theorem fuser_serial_merge_condition_witness:
  "(\<exists>m. fuser_serial_step api0 {}
           (loop0 2 False [] [add0 (view0 1 0) (view0 2 0) (view0 3 0)])
           (loop0 4 True [] [add0 (view0 4 0) (view0 1 0) (view0 2 0)]) = Continue m)
   \<and> reshapable (loop0 4 True [] [add0 (view0 4 0) (view0 1 0) (view0 2 0)])
   \<and> size_b (loop0 2 False [] [add0 (view0 1 0) (view0 2 0) (view0 3 0)]) = 2
   \<and> size_b (loop0 4 True [] [add0 (view0 4 0) (view0 1 0) (view0 2 0)]) = 4"
proof -
  let ?cur = "loop0 2 False [] [add0 (view0 1 0) (view0 2 0) (view0 3 0)]"
  let ?it = "loop0 4 True [] [add0 (view0 4 0) (view0 1 0) (view0 2 0)]"
  have a: "\<not> isInstr api0 ?it" by (simp add: api0_def loop0_def)
  have b: "rank ?cur = rank ?it" by (simp add: loop0_def)
  have c: "0 < size_b ?cur" by (simp add: loop0_def)
  have d: "0 < size_b ?it" by (simp add: loop0_def)
  have e: "\<forall>is r s. size_b (create_nested_block api0 is r s {}) = s" by (simp add: api0_def)
  have f: "data_parallel_compatible api0 ?cur ?it \<and> sweeps ?cur = []"
    by (simp add: fuser_eval eval_nat_numeral)
  have g: "reshapable ?it \<and> size_b ?cur dvd size_b ?it" by (simp add: loop0_def)
  from fuser_serial_merge_condition [OF a b c d e] f g
  have "\<exists>m. fuser_serial_step api0 {} ?cur ?it = Continue m" by blast
  then show ?thesis by (simp add: loop0_def)
qed

lemma fuser_serial_example:
  "fuser_serial 5 api0 {}
      [loop0 4 False [] [add0 (view0 1 0) (view0 2 0) (view0 3 0)],
       loop0 4 False [] [add0 (view0 4 0) (view0 1 0) (view0 2 0)],
       loop0 4 False [] [add0 (view0 5 0) (view0 1 1) (view0 2 0)]]
     = Fused [loop0 4 False [] [add0 (view0 1 0) (view0 2 0) (view0 3 0),
                                 add0 (view0 4 0) (view0 1 0) (view0 2 0)],
              loop0 4 False [] [add0 (view0 5 0) (view0 1 1) (view0 2 0)]]"
  by (simp add: fuser_eval eval_nat_numeral)


section \<open>The random extension: what the output depends on\<close>

lemma length_regenerate_lo: "length (regenerate_lo n i k) = length k"
  by (induction n arbitrary: i k) simp_all

lemma length_regenerate_hi: "length (regenerate_hi n i k) = length k"
  by (induction n arbitrary: i k) simp_all

lemma regenerate_lo_below: "j < i \<Longrightarrow> regenerate_lo n i k ! j = k ! j"
  by (induction n arbitrary: i k) simp_all

lemma regenerate_hi_below: "j < i \<Longrightarrow> regenerate_hi n i k ! j = k ! j"
  by (induction n arbitrary: i k) simp_all

lemma regenerate_lo_first:
  "0 < length k \<Longrightarrow> regenerate_lo (Suc n) 0 k ! 0 = twist (k ! rk_M) (k ! 0) (k ! 1)"
  by (simp add: regenerate_lo_below)

lemma regenerate_first:
  assumes "length k = rk_N"
  shows "regenerate k ! 0 = twist (k ! rk_M) (k ! 0) (k ! 1)"
proof -
  have n: "rk_N - rk_M = Suc 226" by (simp add: rk_N_def rk_M_def)
  from assms have "0 < length k" by (simp add: rk_N_def)
  then have lo: "regenerate_lo (rk_N - rk_M) 0 k ! 0 = twist (k ! rk_M) (k ! 0) (k ! 1)"
    unfolding n by (rule regenerate_lo_first)
  have "regenerate_hi (rk_N - 1 - (rk_N - rk_M)) (rk_N - rk_M) (regenerate_lo (rk_N - rk_M) 0 k) ! 0
          = regenerate_lo (rk_N - rk_M) 0 k ! 0"
    by (rule regenerate_hi_below) (simp add: n)
  with lo show ?thesis
    by (simp add: regenerate_def Let_def rk_N_def)
qed

lemma length_rk_seed_keys: "length (rk_seed_keys n p seed) = n"
  by (induction n arbitrary: p seed) simp_all

lemma rk_seed_keys_nth: "j < n \<Longrightarrow> rk_seed_keys n p seed ! j = seed_iter j p seed"
proof (induction n arbitrary: j p seed)
  case 0
  then show ?case by simp
next
  case (Suc n)
  then show ?case by (cases j) simp_all
qed

lemma first_random:
  "fst (rk_random (rk_seed seed))
     = temper (twist (seed_iter 397 0 (seed AND 0xffffffff)) (seed AND 0xffffffff)
                 (seed_iter 1 0 (seed AND 0xffffffff)))"
proof -
  let ?k = "rk_seed_keys RK_STATE_LEN 0 (seed AND 0xffffffff)"
  have len: "length ?k = rk_N" by (simp add: length_rk_seed_keys RK_STATE_LEN_def rk_N_def)
  have "fst (rk_random (rk_seed seed)) = temper (regenerate ?k ! 0)"
    by (simp add: rk_random_def rk_seed_def Let_def)
  also have "regenerate ?k ! 0 = twist (?k ! rk_M) (?k ! 0) (?k ! 1)"
    by (rule regenerate_first [OF len])
  also have "?k ! rk_M = seed_iter 397 0 (seed AND 0xffffffff)"
    by (simp add: rk_seed_keys_nth RK_STATE_LEN_def rk_M_def)
  also have "?k ! 0 = seed AND 0xffffffff"
    by (simp add: rk_seed_keys_nth RK_STATE_LEN_def)
  also have "?k ! 1 = seed_iter 1 0 (seed AND 0xffffffff)"
    by (simp add: rk_seed_keys_nth RK_STATE_LEN_def)
  finally show ?thesis .
qed

lemma one_uint32:
  "cphvb_compute_random e True \<lparr>ary_type = CPHVB_UINT32, nelements = 1\<rparr>
     = (CPHVB_SUCCESS, [UInt32 (ucast (fst (rk_random (rk_initseed e))))])"
  by (simp add: cphvb_compute_random_def rk_uint32_def split: prod.splits)

lemma seed_usec0:
  "initseed_value \<lparr>pid = 4242, tv_sec = 1350000000, tv_usec = 0\<rparr> AND 0xffffffff = 3016970094"
  by code_simp

lemma seed_usec1:
  "initseed_value \<lparr>pid = 4242, tv_sec = 1350000000, tv_usec = 1\<rparr> AND 0xffffffff = 2426864895"
  by code_simp

lemma seed_iter_usec0: "seed_iter 397 0 3016970094 = 614139279"
  by code_simp

lemma seed_iter_usec1: "seed_iter 397 0 2426864895 = 1746840433"
  by code_simp

lemma seed_iter1_usec0: "seed_iter 1 0 3016970094 = 3285393821"
  by code_simp

lemma seed_iter1_usec1: "seed_iter 1 0 2426864895 = 1383816402"
  by code_simp

lemma temper_usec0: "temper (twist 614139279 3016970094 3285393821) = 723641362"
  by code_simp

lemma temper_usec1: "temper (twist 1746840433 2426864895 1383816402) = 447165393"
  by code_simp

text \<open>
  The seed is no part of the instruction: \<^verbatim>\<open>rk_initseed\<close> takes it from the process
  id and the time of day. The same request for one \<open>uint32\<close> element, made by the same
  process one microsecond later, is answered from another seed and fills the array
  with another value.
\<close>

lemma random_differs_with_time:
  "cphvb_compute_random \<lparr>pid = 4242, tv_sec = 1350000000, tv_usec = 0\<rparr> True
       \<lparr>ary_type = CPHVB_UINT32, nelements = 1\<rparr> = (CPHVB_SUCCESS, [UInt32 723641362])
   \<and> cphvb_compute_random \<lparr>pid = 4242, tv_sec = 1350000000, tv_usec = 1\<rparr> True
       \<lparr>ary_type = CPHVB_UINT32, nelements = 1\<rparr> = (CPHVB_SUCCESS, [UInt32 447165393])
   \<and> cphvb_compute_random \<lparr>pid = 4242, tv_sec = 1350000000, tv_usec = 0\<rparr> True
       \<lparr>ary_type = CPHVB_UINT32, nelements = 1\<rparr>
     \<noteq> cphvb_compute_random \<lparr>pid = 4242, tv_sec = 1350000000, tv_usec = 1\<rparr> True
       \<lparr>ary_type = CPHVB_UINT32, nelements = 1\<rparr>"
proof -
  have a: "fst (rk_random (rk_initseed \<lparr>pid = 4242, tv_sec = 1350000000, tv_usec = 0\<rparr>))
             = 723641362"
    unfolding rk_initseed_def first_random seed_usec0 seed_iter_usec0 seed_iter1_usec0
    by (rule temper_usec0)
  have b: "fst (rk_random (rk_initseed \<lparr>pid = 4242, tv_sec = 1350000000, tv_usec = 1\<rparr>))
             = 447165393"
    unfolding rk_initseed_def first_random seed_usec1 seed_iter_usec1 seed_iter1_usec1
    by (rule temper_usec1)
  show ?thesis unfolding one_uint32 a b by simp
qed

section \<open>The naive engine: execution\<close>

text \<open>
  The sibling of \<open>execute\<close> in the naive engine does propagate: it returns the status
  of the first instruction that fails and dispatches nothing after it. A user function
  whose id is none of the three recorded ids is refused; an id equal to the id of an
  unregistered slot (0 at start) leads to a call through a null pointer.
\<close>

lemma naive_execute_from_append:
  "naive_execute_from nw s c pre mem = (Returns BH_SUCCESS, c + length pre, m1) \<Longrightarrow>
     naive_execute_from nw s c (pre @ rest) mem
       = naive_execute_from nw s (c + length pre) rest m1"
proof (induction pre arbitrary: c mem)
  case Nil
  then show ?case by simp
next
  case (Cons inst pre)
  obtain r m where d: "naive_dispatch nw s c inst mem = (r, m)"
    by (cases "naive_dispatch nw s c inst mem") auto
  show ?case
  proof (cases r)
    case Crashes
    with Cons.prems d show ?thesis by simp
  next
    case (Returns res)
    show ?thesis
    proof (cases "res = BH_SUCCESS")
      case False
      with Cons.prems d Returns show ?thesis by simp
    next
      case True
      with Cons.prems d Returns
      have "naive_execute_from nw s (Suc c) pre m
              = (Returns BH_SUCCESS, Suc c + length pre, m1)"
        by simp
      from Cons.IH [OF this] d Returns True show ?thesis by simp
    qed
  qed
qed

lemma naive_execute_stops_at_first_failure:
  assumes "naive_execute_from nw s 0 pre mem = (Returns BH_SUCCESS, length pre, m1)"
    and "naive_dispatch nw s (length pre) inst m1 = (Returns r, m2)"
    and "r \<noteq> BH_SUCCESS"
  shows "bh_ve_naive_execute nw s (pre @ inst # rest) mem = (Returns r, Suc (length pre), m2)"
proof -
  from assms(1) have "naive_execute_from nw s 0 pre mem = (Returns BH_SUCCESS, 0 + length pre, m1)"
    by simp
  from naive_execute_from_append [OF this, of "inst # rest"] assms(2,3)
  show ?thesis by (simp add: bh_ve_naive_execute_def)
qed

lemma naive_unknown_userfunc:
  assumes "n_opcode inst = BH_USERFUNC"
    and "userfunc_id inst \<noteq> random_impl_id s"
    and "userfunc_id inst \<noteq> matmul_impl_id s"
    and "userfunc_id inst \<noteq> nselect_impl_id s"
  shows "naive_dispatch nw s count inst mem = (Returns BH_USERFUNC_NOT_SUPPORTED, mem)"
  using assms by (simp add: naive_dispatch_def)

lemma naive_unregistered_id_zero:
  "n_opcode inst = BH_USERFUNC \<Longrightarrow> userfunc_id inst = 0 \<Longrightarrow>
     naive_dispatch nw naive_initial count inst mem = (Crashes, mem)"
  by (simp add: naive_dispatch_def call_slot_def naive_initial_def)

section \<open>Determinism up to the seed\<close>













end
